theory Spec2Isabelle
  imports Main "HOL-Library.Word" "HOL-Library.Multiset"
begin

unbundle bit_operations_syntax

section \<open>Batched migration of secure-memory pages (mm/migrate\_sma.c)\<close>

text \<open>
  The file embeds the seven functions of \<^verbatim>\<open>mm/migrate_sma.c\<close>:
  \<^verbatim>\<open>__unmap_sma_page\<close>, \<^verbatim>\<open>unmap_sma_page\<close>, \<^verbatim>\<open>unmap_sma_pages\<close>,
  \<^verbatim>\<open>__move_sma_page\<close>, \<^verbatim>\<open>move_sma_page\<close>, \<^verbatim>\<open>move_sma_pages\<close> and
  \<^verbatim>\<open>migrate_sma_pages\<close>, with explicit state passing.

  What the C code reads from the rest of the kernel (page flags, the outcome of
  \<^verbatim>\<open>trylock_page\<close> under contention, of \<^verbatim>\<open>try_to_unmap\<close>, of
  \<^verbatim>\<open>move_to_new_page\<close>, of the \<^verbatim>\<open>get_new_page\<close> callback) is not decided
  by this file: it is a parameter, an observation record chosen freely for every
  page and every pass. Any sequence of transient failures is therefore an
  instance of the model.
\<close>

subsection \<open>Data\<close>

text \<open>A \<^verbatim>\<open>struct page\<close> is identified by its frame number (\<^verbatim>\<open>page_to_pfn\<close>).\<close>

type_synonym page = nat

definition page_to_pfn :: "page \<Rightarrow> nat" where
  "page_to_pfn p = p"

datatype migrate_mode = MIGRATE_ASYNC | MIGRATE_SYNC_LIGHT | MIGRATE_SYNC | MIGRATE_SYNC_NO_COPY

text \<open>\<^verbatim>\<open>enum migrate_reason\<close> is only passed through; it is an opaque tag.\<close>

type_synonym migrate_reason = nat

definition EAGAIN :: int where "EAGAIN = 11"
definition ENOMEM :: int where "ENOMEM = 12"
definition MIGRATEPAGE_SUCCESS :: int where "MIGRATEPAGE_SUCCESS = 0"

text \<open>Bits of \<^verbatim>\<open>current->flags\<close> (include/linux/sched.h of Linux 4.19).\<close>

definition PF_MEMALLOC :: "32 word" where "PF_MEMALLOC = 0x00000800"
definition PF_SWAPWRITE :: "32 word" where "PF_SWAPWRITE = 0x00800000"

text \<open>The two ways a call does not return a code: \<^verbatim>\<open>BUG()\<close>, and a
  \<^verbatim>\<open>lock_page\<close> that waits for a lock the calling thread itself holds.\<close>

datatype fault = BUG | HANG

datatype req_kind = REQ_KVM_TO_S_VISOR_REMAP_IPA

record smc_req =
  sec_vm_id :: "32 word"
  req_type :: req_kind
  src_start_pfn :: nat
  dst_start_pfn :: nat
  nr_pages :: nat
  ipn_list :: "nat \<Rightarrow> 64 word"

text \<open>The \<^verbatim>\<open>pr_err\<close> sites of the file, by function.\<close>

datatype pr_site =
    Unmap_non_sma | Unmap_writeback | Unmap_not_lru | Unmap_eagain_last | Unmap_invalid_rc
  | Move_newpage_locked | Move_newpage_refcount | Move_still_mapped
  | Move_no_newpage | Move_non_secure | Move_page_invalid_rc | Move_invalid_rc
  | Migrate_unmap_failed | Migrate_move_failed

text \<open>Calls that leave this file, in the order they are made.
  \<open>Ev_try_to_unmap\<close> carries the stores into \<^verbatim>\<open>migrate_ipns\<close> (slot, value)
  made while the call ran. \<open>Ev_smc\<close> carries the request as written to the
  shared region and the value the global \<^verbatim>\<open>is_migrating\<close> has while the
  \<^verbatim>\<open>smc\<close> instruction executes.\<close>

datatype event =
    Ev_pr_err pr_site
  | Ev_try_to_unmap page "(nat \<times> 64 word) list"
  | Ev_remove_migration_ptes page page
  | Ev_get_anon_vma page
  | Ev_put_anon_vma page
  | Ev_get_new_page page
  | Ev_put_new_page page page
  | Ev_put_page page page
  | Ev_move_to_new_page page page migrate_mode
  | Ev_set_owner_reason page migrate_reason
  | Ev_smc smc_req bool

text \<open>
  The state: the three list heads (\<^verbatim>\<open>from\<close>, and the locals
  \<^verbatim>\<open>unmapped_head\<close> and \<^verbatim>\<open>moved_head\<close> of \<^verbatim>\<open>migrate_sma_pages\<close>), the set of
  pages whose \<^verbatim>\<open>PG_locked\<close> bit this thread has set and not cleared,
  \<^verbatim>\<open>current->flags\<close>, the four globals of the file, and the calls made so far.
\<close>

record state =
  from_head :: "page list"
  unmapped_head :: "page list"
  moved_head :: "page list"
  held :: "page set"
  current_flags :: "32 word"
  is_migrating :: bool
  migrate_sec_vm_id :: "32 word"
  nr_migrate_pages :: "32 word"
  migrate_ipns :: "nat \<Rightarrow> 64 word"
  klog :: "event list"

text \<open>What one call of \<^verbatim>\<open>__unmap_sma_page\<close> reads from the page and its
  surroundings. \<open>u_contended\<close>: another thread holds the page lock when
  \<^verbatim>\<open>trylock_page\<close> runs. \<open>u_anon_vma\<close>: \<^verbatim>\<open>page_get_anon_vma\<close> returns non-NULL.
  \<open>u_mapping\<close>: \<^verbatim>\<open>page->mapping\<close> is non-NULL. \<open>u_ttu_ok\<close>: the result of
  \<^verbatim>\<open>try_to_unmap\<close>; \<open>u_ttu_vm_id\<close> and \<open>u_ttu_ipns\<close>: what the fault-handler
  side stores into \<^verbatim>\<open>migrate_sec_vm_id\<close> and \<^verbatim>\<open>migrate_ipns\<close> (index, value)
  while \<^verbatim>\<open>try_to_unmap\<close> runs.\<close>

record unmap_obs =
  u_is_sec_mem :: bool
  u_movable :: bool
  u_contended :: bool
  u_writeback :: bool
  u_anon :: bool
  u_ksm :: bool
  u_anon_vma :: bool
  u_mapping :: bool
  u_has_private :: bool
  u_mapped :: bool
  u_ttu_ok :: bool
  u_ttu_vm_id :: "32 word option"
  u_ttu_ipns :: "(nat \<times> 64 word) list"

text \<open>What one call of \<^verbatim>\<open>move_sma_page\<close> reads. \<open>m_newpage\<close>: the result of
  \<^verbatim>\<open>get_new_page\<close>; \<open>m_move_rc\<close>: the result of \<^verbatim>\<open>move_to_new_page\<close>;
  \<open>m_new_count\<close>: \<^verbatim>\<open>page_count(newpage)\<close> after it.\<close>

record move_obs =
  m_newpage :: "page option"
  m_new_contended :: bool
  m_mapped :: bool
  m_move_rc :: int
  m_new_count :: int
  m_anon_vma :: bool
  m_new_is_sec_mem :: bool

text \<open>The surroundings of one call of \<^verbatim>\<open>migrate_sma_pages\<close>: the observations
  by page and pass, whether the kernel is built with \<^verbatim>\<open>CONFIG_DEBUG_VM\<close> (then
  \<^verbatim>\<open>VM_BUG_ON_PAGE\<close> is a \<^verbatim>\<open>BUG\<close>, else nothing), whether \<^verbatim>\<open>put_new_page\<close> is
  non-NULL, \<^verbatim>\<open>dst_cache->base_pfn\<close>, and the frame number
  \<^verbatim>\<open>list_first_entry\<close> computes from the list head itself when \<^verbatim>\<open>from\<close> is
  empty.\<close>

record env =
  e_unmap :: "page \<Rightarrow> nat \<Rightarrow> unmap_obs"
  e_move :: "page \<Rightarrow> nat \<Rightarrow> move_obs"
  e_debug_vm :: bool
  e_has_put_new_page :: bool
  e_dst_base_pfn :: nat
  e_empty_head_pfn :: nat

text \<open>The locals of the two retry loops. They are C \<^verbatim>\<open>int\<close>s that count
  entries of one batch (2048 pages), far from overflow: integers here.\<close>

record locals =
  l_rc :: int
  l_retry :: int
  l_nr_succeeded :: int

subsection \<open>Primitives\<close>

definition ev :: "event \<Rightarrow> state \<Rightarrow> state" where
  "ev e s = s\<lparr>klog := klog s @ [e]\<rparr>"

definition pr_err :: "pr_site \<Rightarrow> state \<Rightarrow> state" where
  "pr_err site s = ev (Ev_pr_err site) s"

text \<open>\<^verbatim>\<open>trylock_page\<close>: test-and-set of \<^verbatim>\<open>PG_locked\<close>. It fails when the bit is
  set, by this thread or by another.\<close>

definition trylock_page :: "bool \<Rightarrow> page \<Rightarrow> state \<Rightarrow> bool \<times> state" where
  "trylock_page contended p s =
     (if p \<in> held s \<or> contended then (False, s)
      else (True, s\<lparr>held := insert p (held s)\<rparr>))"

text \<open>\<^verbatim>\<open>lock_page\<close>: sleeps until the bit is clear, then sets it. Another
  holder releases it eventually; when this thread holds it, nobody does, and
  the call does not return (\<open>None\<close>).\<close>

definition lock_page :: "page \<Rightarrow> state \<Rightarrow> state option" where
  "lock_page p s = (if p \<in> held s then None else Some (s\<lparr>held := insert p (held s)\<rparr>))"

definition unlock_page :: "page \<Rightarrow> state \<Rightarrow> state" where
  "unlock_page p s = s\<lparr>held := held s - {p}\<rparr>"

text \<open>Modelled from the spec: the recording half of \<^verbatim>\<open>try_to_unmap\<close>
  (\<^verbatim>\<open>handle_hva_to_gpa\<close>, not in this file). For each mapping removed it
  stores an intermediate address into the table and increments the page
  counter; it stores the compartment identifier. Which slots and values is the
  observation's choice.\<close>

definition record_ipns :: "32 word option \<Rightarrow> (nat \<times> 64 word) list \<Rightarrow> state \<Rightarrow> state" where
  "record_ipns vm ws s =
     s\<lparr>migrate_sec_vm_id := (case vm of None \<Rightarrow> migrate_sec_vm_id s | Some v \<Rightarrow> v),
       nr_migrate_pages := nr_migrate_pages s + of_nat (length ws),
       migrate_ipns := foldl (\<lambda>t (i, v). t(i := v)) (migrate_ipns s) ws\<rparr>"

definition try_to_unmap :: "unmap_obs \<Rightarrow> page \<Rightarrow> state \<Rightarrow> bool \<times> state" where
  "try_to_unmap ob p s =
     (u_ttu_ok ob,
      record_ipns (u_ttu_vm_id ob) (u_ttu_ipns ob) (ev (Ev_try_to_unmap p (u_ttu_ipns ob)) s))"

definition put_anon_vma :: "bool \<Rightarrow> page \<Rightarrow> state \<Rightarrow> state" where
  "put_anon_vma anon_vma p s = (if anon_vma then ev (Ev_put_anon_vma p) s else s)"

subsection \<open>Unmap phase\<close>

text \<open>Lines 37 to 92 of \<^verbatim>\<open>__unmap_sma_page\<close>: the part run with the page lock
  held.\<close>

definition unmap_locked :: "env \<Rightarrow> unmap_obs \<Rightarrow> page \<Rightarrow> bool \<Rightarrow> state \<Rightarrow> (fault + int) \<times> state" where
  "unmap_locked env ob page is_lru s =
     (if u_writeback ob then (Inl BUG, pr_err Unmap_writeback s)
      else
        let anon_vma = (u_anon ob \<and> \<not> u_ksm ob \<and> u_anon_vma ob);
            s1 = (if anon_vma then ev (Ev_get_anon_vma page) s else s)
        in
        if \<not> is_lru then (Inl BUG, pr_err Unmap_not_lru s1)
        else if \<not> u_mapping ob then
          (if e_debug_vm env \<and> u_anon ob then (Inl BUG, s1)
           else if e_debug_vm env \<and> u_has_private ob then (Inl BUG, s1)
           else if \<not> u_mapped ob then (Inr MIGRATEPAGE_SUCCESS, put_anon_vma anon_vma page s1)
           else (Inr (- EAGAIN), put_anon_vma anon_vma page s1))
        else if u_mapped ob then
          (if e_debug_vm env \<and> u_anon ob \<and> \<not> u_ksm ob \<and> \<not> anon_vma then (Inl BUG, s1)
           else
             case try_to_unmap ob page s1 of
               (is_unmapped, s2) \<Rightarrow>
                 if is_unmapped then (Inr MIGRATEPAGE_SUCCESS, put_anon_vma anon_vma page s2)
                 else (Inr (- EAGAIN),
                       put_anon_vma anon_vma page
                         (unlock_page page (ev (Ev_remove_migration_ptes page page) s2))))
        else (Inr (- EAGAIN), put_anon_vma anon_vma page s1))"

text \<open>\<^verbatim>\<open>__unmap_sma_page\<close>.\<close>

definition dunder_unmap_sma_page ::
  "env \<Rightarrow> unmap_obs \<Rightarrow> page \<Rightarrow> bool \<Rightarrow> migrate_mode \<Rightarrow> migrate_reason \<Rightarrow> state
     \<Rightarrow> (fault + int) \<times> state" where
  "dunder_unmap_sma_page env ob page force mode reason s =
     (let is_lru = \<not> u_movable ob in
      if \<not> u_is_sec_mem ob then (Inl BUG, pr_err Unmap_non_sma s)
      else
        case trylock_page (u_contended ob) page s of
          (True, s1) \<Rightarrow> unmap_locked env ob page is_lru s1
        | (False, s1) \<Rightarrow>
            if \<not> force \<or> mode = MIGRATE_ASYNC then (Inr (- EAGAIN), s1)
            else if current_flags s1 AND PF_MEMALLOC \<noteq> 0 then (Inr (- EAGAIN), s1)
            else
              (case lock_page page s1 of
                 None \<Rightarrow> (Inl HANG, s1)
               | Some s2 \<Rightarrow> unmap_locked env ob page is_lru s2))"

definition unmap_sma_page ::
  "env \<Rightarrow> unmap_obs \<Rightarrow> page \<Rightarrow> bool \<Rightarrow> migrate_mode \<Rightarrow> migrate_reason \<Rightarrow> state
     \<Rightarrow> (fault + int) \<times> state" where
  "unmap_sma_page env ob page force mode reason s =
     dunder_unmap_sma_page env ob page force mode reason s"

text \<open>\<^verbatim>\<open>list_del(&page->lru); list_add(&page->lru, head)\<close>: the page leaves
  the list it is on and becomes the first entry of the other.\<close>

definition from_to_unmapped :: "page \<Rightarrow> state \<Rightarrow> state" where
  "from_to_unmapped p s =
     s\<lparr>from_head := remove1 p (from_head s), unmapped_head := p # unmapped_head s\<rparr>"

text \<open>The body of \<^verbatim>\<open>list_for_each_entry_safe\<close> in \<^verbatim>\<open>unmap_sma_pages\<close>, over the
  entries \<^verbatim>\<open>from\<close> has when the pass starts (the body deletes none but the
  current one).\<close>

fun unmap_entries ::
  "env \<Rightarrow> migrate_mode \<Rightarrow> migrate_reason \<Rightarrow> nat \<Rightarrow> page list \<Rightarrow> locals \<Rightarrow> state
     \<Rightarrow> (fault + locals) \<times> state" where
  "unmap_entries env mode reason pass [] lv s = (Inr lv, s)"
| "unmap_entries env mode reason pass (page # rest) lv s =
     (case unmap_sma_page env (e_unmap env page pass) page (pass > 2) mode reason s of
        (Inl f, s1) \<Rightarrow> (Inl f, s1)
      | (Inr rc, s1) \<Rightarrow>
          if rc = - EAGAIN then
            unmap_entries env mode reason pass rest
              (lv\<lparr>l_rc := rc, l_retry := l_retry lv + 1\<rparr>)
              (if pass = 10 then pr_err Unmap_eagain_last s1 else s1)
          else if rc = MIGRATEPAGE_SUCCESS then
            unmap_entries env mode reason pass rest
              (lv\<lparr>l_rc := rc, l_nr_succeeded := l_nr_succeeded lv + 1\<rparr>)
              (from_to_unmapped page s1)
          else
            unmap_entries env mode reason pass rest (lv\<lparr>l_rc := rc\<rparr>)
              (pr_err Unmap_invalid_rc s1))"

text \<open>The \<^verbatim>\<open>for (pass = 0; pass < 10 && retry; pass++)\<close> loop of
  \<^verbatim>\<open>unmap_sma_pages\<close>; it returns the locals and \<^verbatim>\<open>pass\<close> as the loop leaves
  them.\<close>

function unmap_passes ::
  "env \<Rightarrow> migrate_mode \<Rightarrow> migrate_reason \<Rightarrow> nat \<Rightarrow> locals \<Rightarrow> state
     \<Rightarrow> (fault + locals \<times> nat) \<times> state" where
  "unmap_passes env mode reason pass lv s =
     (if pass < 10 \<and> l_retry lv \<noteq> 0 then
        case unmap_entries env mode reason pass (from_head s) (lv\<lparr>l_retry := 0\<rparr>) s of
          (Inl f, s1) \<Rightarrow> (Inl f, s1)
        | (Inr lv1, s1) \<Rightarrow> unmap_passes env mode reason (pass + 1) lv1 s1
      else (Inr (lv, pass), s))"
  by pat_completeness auto
termination
  by (relation "measure (\<lambda>(env, mode, reason, pass, lv, s). 10 - pass)") auto

declare unmap_passes.simps [simp del]

text \<open>\<^verbatim>\<open>unmap_sma_pages\<close>: the loop from \<^verbatim>\<open>pass = 0, retry = 1\<close>, returning
  \<^verbatim>\<open>rc\<close>.\<close>

definition unmap_sma_pages ::
  "env \<Rightarrow> migrate_mode \<Rightarrow> migrate_reason \<Rightarrow> state \<Rightarrow> (fault + int) \<times> state" where
  "unmap_sma_pages env mode reason s =
     (case unmap_passes env mode reason 0
             \<lparr>l_rc = MIGRATEPAGE_SUCCESS, l_retry = 1, l_nr_succeeded = 0\<rparr> s of
        (Inl f, s1) \<Rightarrow> (Inl f, s1)
      | (Inr (lv, pass), s1) \<Rightarrow> (Inr (l_rc lv), s1))"

subsection \<open>Move phase\<close>

text \<open>\<^verbatim>\<open>__move_sma_page\<close>.\<close>

definition dunder_move_sma_page ::
  "move_obs \<Rightarrow> page \<Rightarrow> page \<Rightarrow> migrate_mode \<Rightarrow> state \<Rightarrow> int \<times> state" where
  "dunder_move_sma_page ob page newpage mode s =
     (case trylock_page (m_new_contended ob) newpage s of
        (False, s1) \<Rightarrow> (- EAGAIN, pr_err Move_newpage_locked s1)
      | (True, s1) \<Rightarrow>
          if m_mapped ob then (- EAGAIN, pr_err Move_still_mapped s1)
          else
            let rc = m_move_rc ob;
                s2 = ev (Ev_move_to_new_page newpage page mode) s1;
                s3 = (if m_new_count ob \<noteq> 2 then pr_err Move_newpage_refcount s2 else s2);
                s4 = (if rc = MIGRATEPAGE_SUCCESS
                      then ev (Ev_remove_migration_ptes page newpage) s3 else s3);
                s5 = unlock_page newpage s4
            in
            if rc \<noteq> MIGRATEPAGE_SUCCESS then (rc, s5)
            else
              let s6 = (if m_anon_vma ob
                        then ev (Ev_put_anon_vma page) (ev (Ev_get_anon_vma page) s5) else s5)
              in (rc, unlock_page page s6))"

text \<open>\<^verbatim>\<open>move_sma_page\<close>.\<close>

definition move_sma_page ::
  "env \<Rightarrow> move_obs \<Rightarrow> page \<Rightarrow> migrate_mode \<Rightarrow> migrate_reason \<Rightarrow> state
     \<Rightarrow> (fault + int) \<times> state" where
  "move_sma_page env ob page mode reason s =
     (let s1 = ev (Ev_get_new_page page) s in
      case m_newpage ob of
        None \<Rightarrow> (Inr (- ENOMEM), pr_err Move_no_newpage s1)
      | Some newpage \<Rightarrow>
          (case dunder_move_sma_page ob page newpage mode s1 of
             (rc, s2) \<Rightarrow>
               let s3 = (if rc = MIGRATEPAGE_SUCCESS
                         then ev (Ev_set_owner_reason newpage reason) s2 else s2)
               in
               if rc = MIGRATEPAGE_SUCCESS then
                 (if \<not> m_new_is_sec_mem ob then (Inl BUG, pr_err Move_non_secure s3)
                  else (Inr rc, s3))
               else if rc = - EAGAIN then
                 (if e_has_put_new_page env then (Inr rc, ev (Ev_put_new_page page newpage) s3)
                  else (Inr rc, ev (Ev_put_page page newpage) s3))
               else (Inr rc, pr_err Move_page_invalid_rc s3)))"

definition unmapped_to_moved :: "page \<Rightarrow> state \<Rightarrow> state" where
  "unmapped_to_moved p s =
     s\<lparr>unmapped_head := remove1 p (unmapped_head s), moved_head := p # moved_head s\<rparr>"

text \<open>The body of \<^verbatim>\<open>list_for_each_entry_safe\<close> in \<^verbatim>\<open>move_sma_pages\<close>.\<close>

fun move_entries ::
  "env \<Rightarrow> migrate_mode \<Rightarrow> migrate_reason \<Rightarrow> nat \<Rightarrow> page list \<Rightarrow> locals \<Rightarrow> state
     \<Rightarrow> (fault + locals) \<times> state" where
  "move_entries env mode reason pass [] lv s = (Inr lv, s)"
| "move_entries env mode reason pass (page # rest) lv s =
     (case move_sma_page env (e_move env page pass) page mode reason s of
        (Inl f, s1) \<Rightarrow> (Inl f, s1)
      | (Inr rc, s1) \<Rightarrow>
          if rc = - EAGAIN then
            move_entries env mode reason pass rest
              (lv\<lparr>l_rc := rc, l_retry := l_retry lv + 1\<rparr>) s1
          else if rc = MIGRATEPAGE_SUCCESS then
            move_entries env mode reason pass rest
              (lv\<lparr>l_rc := rc, l_nr_succeeded := l_nr_succeeded lv + 1\<rparr>)
              (unmapped_to_moved page s1)
          else
            move_entries env mode reason pass rest (lv\<lparr>l_rc := rc\<rparr>)
              (pr_err Move_invalid_rc s1))"

text \<open>The \<^verbatim>\<open>for\<close> loop of \<^verbatim>\<open>move_sma_pages\<close>.\<close>

function move_passes ::
  "env \<Rightarrow> migrate_mode \<Rightarrow> migrate_reason \<Rightarrow> nat \<Rightarrow> locals \<Rightarrow> state
     \<Rightarrow> (fault + locals \<times> nat) \<times> state" where
  "move_passes env mode reason pass lv s =
     (if pass < 10 \<and> l_retry lv \<noteq> 0 then
        case move_entries env mode reason pass (unmapped_head s) (lv\<lparr>l_retry := 0\<rparr>) s of
          (Inl f, s1) \<Rightarrow> (Inl f, s1)
        | (Inr lv1, s1) \<Rightarrow> move_passes env mode reason (pass + 1) lv1 s1
      else (Inr (lv, pass), s))"
  by pat_completeness auto
termination
  by (relation "measure (\<lambda>(env, mode, reason, pass, lv, s). 10 - pass)") auto

declare move_passes.simps [simp del]

text \<open>\<^verbatim>\<open>move_sma_pages\<close>.\<close>

definition move_sma_pages ::
  "env \<Rightarrow> migrate_mode \<Rightarrow> migrate_reason \<Rightarrow> state \<Rightarrow> (fault + int) \<times> state" where
  "move_sma_pages env mode reason s =
     (case move_passes env mode reason 0
             \<lparr>l_rc = MIGRATEPAGE_SUCCESS, l_retry = 1, l_nr_succeeded = 0\<rparr> s of
        (Inl f, s1) \<Rightarrow> (Inl f, s1)
      | (Inr (lv, pass), s1) \<Rightarrow> (Inr (l_rc lv), s1))"

subsection \<open>The orchestrator\<close>

text \<open>The label \<^verbatim>\<open>out\<close> of \<^verbatim>\<open>migrate_sma_pages\<close>.\<close>

definition migrate_out :: "32 word \<Rightarrow> int \<Rightarrow> state \<Rightarrow> (fault + int) \<times> state" where
  "migrate_out swapwrite rc s =
     (Inr rc,
      if swapwrite = 0 then s\<lparr>current_flags := current_flags s AND NOT PF_SWAPWRITE\<rparr> else s)"

text \<open>The request \<^verbatim>\<open>migrate_sma_pages\<close> writes into the shared region:
  \<^verbatim>\<open>memcpy\<close> copies the 2048 entries of \<^verbatim>\<open>migrate_ipns\<close>.\<close>

definition build_smc_req :: "nat \<Rightarrow> nat \<Rightarrow> state \<Rightarrow> smc_req" where
  "build_smc_req src_base_pfn dst_base_pfn s =
     \<lparr>sec_vm_id = migrate_sec_vm_id s,
      req_type = REQ_KVM_TO_S_VISOR_REMAP_IPA,
      src_start_pfn = src_base_pfn,
      dst_start_pfn = dst_base_pfn,
      nr_pages = 8 * 2 ^ (20 - 12),
      ipn_list = (\<lambda>i. if i < 2048 then migrate_ipns s i else 0)\<rparr>"

text \<open>Lines 310 to 327 of \<^verbatim>\<open>migrate_sma_pages\<close>: the two local list heads are
  initialised, \<^verbatim>\<open>PF_SWAPWRITE\<close> is set, and the globals that record the
  intermediate addresses are initialised.\<close>

definition migrate_prologue :: "state \<Rightarrow> state" where
  "migrate_prologue s =
     (let swapwrite = current_flags s AND PF_SWAPWRITE;
          s1 = s\<lparr>unmapped_head := [], moved_head := []\<rparr>;
          s2 = (if swapwrite = 0
                then s1\<lparr>current_flags := current_flags s1 OR PF_SWAPWRITE\<rparr> else s1)
      in s2\<lparr>migrate_sec_vm_id := 0, nr_migrate_pages := 0, is_migrating := True\<rparr>)"

text \<open>Lines 335 to 346: the flag is cleared, the request is filled in and the
  \<^verbatim>\<open>smc\<close> instruction is executed with interrupts disabled.\<close>

definition issue_smc :: "nat \<Rightarrow> nat \<Rightarrow> state \<Rightarrow> state" where
  "issue_smc src_base_pfn dst_base_pfn s =
     (let s1 = s\<lparr>is_migrating := False\<rparr>
      in ev (Ev_smc (build_smc_req src_base_pfn dst_base_pfn s1) (is_migrating s1)) s1)"

text \<open>\<^verbatim>\<open>src_base_pfn\<close>: the frame number of \<^verbatim>\<open>list_first_entry(from)\<close>.\<close>

definition src_base_pfn_of :: "env \<Rightarrow> state \<Rightarrow> nat" where
  "src_base_pfn_of env s =
     (case from_head s of [] \<Rightarrow> e_empty_head_pfn env
      | head_page # _ \<Rightarrow> page_to_pfn head_page)"

text \<open>Lines 310 to 361 of \<^verbatim>\<open>migrate_sma_pages\<close>: all of the function before
  \<^verbatim>\<open>return rc\<close>. The state it gives is the state at the return statement (or
  where \<^verbatim>\<open>BUG()\<close> or a blocked \<^verbatim>\<open>lock_page\<close> stopped the thread), with the
  two local list heads still in scope.\<close>

definition migrate_sma_pages_body ::
  "env \<Rightarrow> migrate_mode \<Rightarrow> migrate_reason \<Rightarrow> state \<Rightarrow> (fault + int) \<times> state" where
  "migrate_sma_pages_body env mode reason s =
     (let swapwrite = current_flags s AND PF_SWAPWRITE;
          src_base_pfn = src_base_pfn_of env s;
          dst_base_pfn = e_dst_base_pfn env
      in
      case unmap_sma_pages env mode reason (migrate_prologue s) of
        (Inl f, s1) \<Rightarrow> (Inl f, s1)
      | (Inr rc, s1) \<Rightarrow>
          if rc \<noteq> 0 then migrate_out swapwrite rc (pr_err Migrate_unmap_failed s1)
          else
            (case move_sma_pages env MIGRATE_SYNC_NO_COPY reason
                    (issue_smc src_base_pfn dst_base_pfn s1) of
               (Inl f, s2) \<Rightarrow> (Inl f, s2)
             | (Inr rc, s2) \<Rightarrow>
                 if rc \<noteq> 0 then migrate_out swapwrite rc (pr_err Migrate_move_failed s2)
                 else migrate_out swapwrite rc s2))"

text \<open>\<^verbatim>\<open>unmapped_head\<close> and \<^verbatim>\<open>moved_head\<close> are locals of
  \<^verbatim>\<open>migrate_sma_pages\<close> (line 312) and nothing splices them onto \<^verbatim>\<open>from\<close>:
  at the return they cease to exist, and the entries still linked to them are
  on no list the caller can reach.\<close>

definition end_of_scope :: "state \<Rightarrow> state" where
  "end_of_scope s = s\<lparr>unmapped_head := [], moved_head := []\<rparr>"

text \<open>\<^verbatim>\<open>migrate_sma_pages\<close>: the body, then the return. A thread stopped by
  \<^verbatim>\<open>BUG()\<close> or in \<^verbatim>\<open>lock_page\<close> does not return, and its locals stay.\<close>

definition migrate_sma_pages ::
  "env \<Rightarrow> migrate_mode \<Rightarrow> migrate_reason \<Rightarrow> state \<Rightarrow> (fault + int) \<times> state" where
  "migrate_sma_pages env mode reason s =
     (case migrate_sma_pages_body env mode reason s of
        (Inl f, s1) \<Rightarrow> (Inl f, s1)
      | (Inr rc, s1) \<Rightarrow> (Inr rc, end_of_scope s1))"

text \<open>The pages on the three lists, with multiplicity.\<close>

definition all_pages :: "state \<Rightarrow> page multiset" where
  "all_pages s = mset (from_head s) + mset (unmapped_head s) + mset (moved_head s)"

subsection \<open>Concrete batches\<close>

text \<open>A secure, anonymous, mapped page that is not locked by anybody and that
  \<^verbatim>\<open>try_to_unmap\<close> unmaps.\<close>

definition ok_unmap :: unmap_obs where
  "ok_unmap =
     \<lparr>u_is_sec_mem = True, u_movable = False, u_contended = False, u_writeback = False,
      u_anon = True, u_ksm = False, u_anon_vma = True, u_mapping = True,
      u_has_private = False, u_mapped = True, u_ttu_ok = True, u_ttu_vm_id = Some 1,
      u_ttu_ipns = []\<rparr>"

text \<open>The same page when \<^verbatim>\<open>try_to_unmap\<close> fails.\<close>

definition never_unmaps :: unmap_obs where
  "never_unmaps = ok_unmap\<lparr>u_ttu_ok := False\<rparr>"

text \<open>A move that succeeds: the supplier returns the secure page \<open>1000 + p\<close>.\<close>

definition ok_move :: "page \<Rightarrow> move_obs" where
  "ok_move p =
     \<lparr>m_newpage = Some (1000 + p), m_new_contended = False, m_mapped = False,
      m_move_rc = MIGRATEPAGE_SUCCESS, m_new_count = 2, m_anon_vma = True,
      m_new_is_sec_mem = True\<rparr>"

definition env_of :: "(page \<Rightarrow> nat \<Rightarrow> unmap_obs) \<Rightarrow> (page \<Rightarrow> nat \<Rightarrow> move_obs) \<Rightarrow> env" where
  "env_of u m =
     \<lparr>e_unmap = u, e_move = m, e_debug_vm = False, e_has_put_new_page = True,
      e_dst_base_pfn = 5000, e_empty_head_pfn = 0\<rparr>"

text \<open>The state at the call: the pages on \<^verbatim>\<open>from\<close>, no lock held, and the
  globals as the static initialisers leave them.\<close>

definition batch :: "page list \<Rightarrow> state" where
  "batch ps =
     \<lparr>from_head = ps, unmapped_head = [], moved_head = [], held = {}, current_flags = 0,
      is_migrating = False, migrate_sec_vm_id = 0, nr_migrate_pages = 0,
      migrate_ipns = (\<lambda>i. 0), klog = []\<rparr>"

text \<open>Every page unmaps and moves at its first attempt.\<close>

definition env_quiet :: env where
  "env_quiet = env_of (\<lambda>p pass. ok_unmap) (\<lambda>p pass. ok_move p)"

text \<open>The \<^verbatim>\<open>smc\<close> calls made so far: the request and the value of
  \<^verbatim>\<open>is_migrating\<close> at the call.\<close>

fun smc_of :: "event \<Rightarrow> (smc_req \<times> bool) list" where
  "smc_of (Ev_smc r b) = [(r, b)]"
| "smc_of _ = []"

definition smc_calls :: "state \<Rightarrow> (smc_req \<times> bool) list" where
  "smc_calls s = concat (map smc_of (klog s))"

text \<open>The slots of \<^verbatim>\<open>migrate_ipns\<close> stored into by the calls of \<^verbatim>\<open>try_to_unmap\<close>
  made so far.\<close>

fun slots_of :: "event \<Rightarrow> nat set" where
  "slots_of (Ev_try_to_unmap p ws) = fst ` set ws"
| "slots_of _ = {}"

definition written :: "state \<Rightarrow> nat set" where
  "written s = \<Union> (slots_of ` set (klog s))"

text \<open>Page 1 never unmaps; page 2 unmaps in the tenth pass only.\<close>

definition env_late_success :: env where
  "env_late_success =
     env_of (\<lambda>p pass. if p = 2 \<and> pass = 9 then ok_unmap else never_unmaps)
       (\<lambda>p pass. ok_move p)"

text \<open>Page 1 unmaps at once; no other page ever unmaps.\<close>

definition env_first_only :: env where
  "env_first_only =
     env_of (\<lambda>p pass. if p = 1 then ok_unmap else never_unmaps) (\<lambda>p pass. ok_move p)"

text \<open>No page ever unmaps.\<close>

definition env_never :: env where
  "env_never = env_of (\<lambda>p pass. never_unmaps) (\<lambda>p pass. ok_move p)"

text \<open>Every page unmaps at once; the supplier has no destination for page 4.\<close>

definition env_no_page :: env where
  "env_no_page =
     env_of (\<lambda>p pass. ok_unmap)
       (\<lambda>p pass. if p = 4 then (ok_move p)\<lparr>m_newpage := None\<rparr> else ok_move p)"

text \<open>A page with a mapping structure that is mapped nowhere.\<close>

definition env_not_mapped :: env where
  "env_not_mapped = env_of (\<lambda>p pass. ok_unmap\<lparr>u_mapped := False\<rparr>) (\<lambda>p pass. ok_move p)"

text \<open>Every page unmaps at once, and its \<^verbatim>\<open>try_to_unmap\<close> stores one address,
  into slot 0 of the table.\<close>

definition env_records :: env where
  "env_records =
     env_of (\<lambda>p pass. ok_unmap\<lparr>u_ttu_ipns := [(0, 0x77)]\<rparr>) (\<lambda>p pass. ok_move p)"

text \<open>A batch of one page, called when slot 5 of the table still holds an
  address of an earlier batch.\<close>

definition stale_batch :: state where
  "stale_batch = (batch [1])\<lparr>migrate_ipns := (\<lambda>i. if i = 5 then 0xABC else 0)\<rparr>"

text \<open>The error line of line 170 is reached: a destination was supplied and
  locked, the page is not mapped, and the count read is not 2.\<close>

definition refcount_logged :: "move_obs \<Rightarrow> state \<Rightarrow> bool" where
  "refcount_logged ob s =
     (case m_newpage ob of None \<Rightarrow> False
      | Some newpage \<Rightarrow>
          newpage \<notin> held s \<and> \<not> m_new_contended ob \<and> \<not> m_mapped ob \<and> m_new_count ob \<noteq> 2)"

text \<open>The same state with one more line in the log, after its first \<open>n\<close>
  entries.\<close>

definition insert_line :: "nat \<Rightarrow> event \<Rightarrow> state \<Rightarrow> state" where
  "insert_line n e s = s\<lparr>klog := take n (klog s) @ [e] @ drop n (klog s)\<rparr>"

text \<open>The same state with the reference-count error lines taken out of the
  log.\<close>

definition without_refcount_lines :: "state \<Rightarrow> state" where
  "without_refcount_lines s =
     s\<lparr>klog := filter (\<lambda>e. e \<noteq> Ev_pr_err Move_newpage_refcount) (klog s)\<rparr>"

text \<open>The same surroundings with every reference count read as 2.\<close>

definition counts_two :: "env \<Rightarrow> env" where
  "counts_two env = env\<lparr>e_move := (\<lambda>p k. (e_move env p k)\<lparr>m_new_count := 2\<rparr>)\<rparr>"

text \<open>Every page unmaps and moves at once, and the destination then has a
  reference count of 3.\<close>

definition env_refcount :: env where
  "env_refcount =
     env_of (\<lambda>p pass. ok_unmap) (\<lambda>p pass. (ok_move p)\<lparr>m_new_count := 3\<rparr>)"

text \<open>How often \<^verbatim>\<open>get_new_page\<close> was called for a page, and how often a
  destination obtained for it was given back (\<^verbatim>\<open>put_new_page\<close>, or \<^verbatim>\<open>put_page\<close>
  when no release callback was passed).\<close>

definition gets :: "page \<Rightarrow> state \<Rightarrow> nat" where
  "gets p s = count_list (klog s) (Ev_get_new_page p)"

fun release_of :: "page \<Rightarrow> event \<Rightarrow> bool" where
  "release_of p (Ev_put_new_page q n) = (p = q)"
| "release_of p (Ev_put_page q n) = (p = q)"
| "release_of p _ = False"

definition releases :: "page \<Rightarrow> state \<Rightarrow> nat" where
  "releases p s = length (filter (release_of p) (klog s))"

text \<open>Every page unmaps at once; in the first pass of the move phase the
  destination is locked by somebody else.\<close>

definition env_contended_once :: env where
  "env_contended_once =
     env_of (\<lambda>p pass. ok_unmap)
       (\<lambda>p pass. if pass = 0 then (ok_move p)\<lparr>m_new_contended := True\<rparr> else ok_move p)"

section \<open>Properties\<close>

lemmas prim_defs =
  trylock_page_def lock_page_def unlock_page_def try_to_unmap_def record_ipns_def
  put_anon_vma_def ev_def pr_err_def

lemmas rc_defs = EAGAIN_def ENOMEM_def MIGRATEPAGE_SUCCESS_def

lemmas batch_defs =
  ok_unmap_def never_unmaps_def ok_move_def env_of_def batch_def env_quiet_def

subsection \<open>What the per-page functions leave alone\<close>

lemma unmap_locked_lists:
  "unmap_locked env ob page is_lru s = (r, s') \<Longrightarrow>
     from_head s' = from_head s \<and> unmapped_head s' = unmapped_head s \<and>
     moved_head s' = moved_head s"
  by (auto simp: unmap_locked_def prim_defs Let_def split: if_splits)

lemma unmap_sma_page_lists:
  "unmap_sma_page env ob page force mode reason s = (r, s') \<Longrightarrow>
     from_head s' = from_head s \<and> unmapped_head s' = unmapped_head s \<and>
     moved_head s' = moved_head s"
  by (auto simp: unmap_sma_page_def dunder_unmap_sma_page_def prim_defs Let_def
       dest!: unmap_locked_lists split: if_splits option.splits)

subsection \<open>Fatal checks of the unmap phase\<close>

lemma unmap_non_secure:
  "\<not> u_is_sec_mem ob \<Longrightarrow>
     dunder_unmap_sma_page env ob page force mode reason s = (Inl BUG, pr_err Unmap_non_sma s)"
  by (simp add: dunder_unmap_sma_page_def)

lemma unmap_locked_writeback:
  "u_writeback ob \<Longrightarrow> fst (unmap_locked env ob page is_lru s) = Inl BUG"
  by (simp add: unmap_locked_def)

lemma unmap_locked_no_hang:
  "fst (unmap_locked env ob page is_lru s) \<noteq> Inl HANG"
  by (simp add: unmap_locked_def try_to_unmap_def Let_def)

lemma unmap_writeback:
  "u_is_sec_mem ob \<Longrightarrow> u_writeback ob \<Longrightarrow> page \<notin> held s \<Longrightarrow>
   \<not> u_contended ob \<or>
     (force \<and> mode \<noteq> MIGRATE_ASYNC \<and> current_flags s AND PF_MEMALLOC = 0) \<Longrightarrow>
   fst (dunder_unmap_sma_page env ob page force mode reason s) = Inl BUG"
  by (auto simp: dunder_unmap_sma_page_def trylock_page_def lock_page_def
        unmap_locked_writeback)

lemma unmap_no_hang_unforced:
  "\<not> force \<Longrightarrow> fst (unmap_sma_page env ob page force mode reason s) \<noteq> Inl HANG"
  by (simp add: unmap_sma_page_def dunder_unmap_sma_page_def trylock_page_def
        unmap_locked_no_hang Let_def)

lemma unmap_entries_non_secure:
  "p \<in> set xs \<Longrightarrow> \<not> u_is_sec_mem (e_unmap env p pass) \<Longrightarrow> pass \<le> 2 \<Longrightarrow>
   fst (unmap_entries env mode reason pass xs lv s) = Inl BUG"
proof (induction xs arbitrary: lv s)
  case Nil
  then show ?case by simp
next
  case (Cons q xs)
  show ?case
  proof (cases "unmap_sma_page env (e_unmap env q pass) q (2 < pass) mode reason s")
    case (Pair r s1)
    show ?thesis
    proof (cases r)
      case (Inl f)
      from Cons.prems have "\<not> 2 < pass" by simp
      from unmap_no_hang_unforced [OF this, of env "e_unmap env q pass" q mode reason s]
        Pair Inl
      have "f = BUG" by (cases f) simp_all
      with Pair Inl show ?thesis by simp
    next
      case (Inr rc)
      with Pair Cons.prems have "p \<noteq> q"
        by (auto simp: unmap_sma_page_def unmap_non_secure)
      with Cons.prems have "p \<in> set xs" by simp
      with Cons.IH Cons.prems Pair Inr show ?thesis by simp
    qed
  qed
qed

lemma unmap_sma_pages_non_secure:
  assumes "p \<in> set (from_head s)" and "\<not> u_is_sec_mem (e_unmap env p 0)"
  shows "fst (unmap_sma_pages env mode reason s) = Inl BUG"
proof -
  let ?lv = "\<lparr>l_rc = MIGRATEPAGE_SUCCESS, l_retry = 1, l_nr_succeeded = 0\<rparr>"
  have "fst (unmap_entries env mode reason 0 (from_head s) (?lv\<lparr>l_retry := 0\<rparr>) s) = Inl BUG"
    using assms by (intro unmap_entries_non_secure) simp_all
  then have "fst (unmap_passes env mode reason 0 ?lv s) = Inl BUG"
    by (subst unmap_passes.simps) (auto split: prod.splits sum.splits)
  then show ?thesis
    by (auto simp: unmap_sma_pages_def split: prod.splits sum.splits)
qed

lemma migrate_prologue_from [simp]: "from_head (migrate_prologue s) = from_head s"
  by (simp add: migrate_prologue_def Let_def)

lemma migrate_sma_pages_fst:
  "fst (migrate_sma_pages env mode reason s) = fst (migrate_sma_pages_body env mode reason s)"
  by (simp add: migrate_sma_pages_def split: prod.splits sum.splits)

lemma migrate_sma_pages_non_secure:
  assumes "p \<in> set (from_head s)" and "\<not> u_is_sec_mem (e_unmap env p 0)"
  shows "fst (migrate_sma_pages env mode reason s) = Inl BUG"
proof -
  have "fst (unmap_sma_pages env mode reason (migrate_prologue s)) = Inl BUG"
    using assms by (intro unmap_sma_pages_non_secure) simp_all
  then have "fst (migrate_sma_pages_body env mode reason s) = Inl BUG"
    by (auto simp: migrate_sma_pages_body_def Let_def split: prod.splits sum.splits)
  then show ?thesis by (simp add: migrate_sma_pages_fst)
qed

text \<open>
  Claim C9. A page presented to the unmap phase with \<^verbatim>\<open>is_sec_mem\<close> unset makes
  \<^verbatim>\<open>__unmap_sma_page\<close> end in \<^verbatim>\<open>BUG()\<close> at once: the state it leaves is the
  state it found plus the log line, so no lock was taken and no list was
  touched. A secure page found under writeback once its lock is held (taken by
  \<^verbatim>\<open>trylock_page\<close>, or by \<^verbatim>\<open>lock_page\<close> when the caller may block) ends in
  \<^verbatim>\<open>BUG()\<close> too. A batch that holds a non-secure page ends in \<^verbatim>\<open>BUG()\<close>, in
  \<^verbatim>\<open>unmap_sma_pages\<close> and so in \<^verbatim>\<open>migrate_sma_pages\<close>.
\<close>

theorem unmap_rejects_non_secure_and_writeback:
  "(\<not> u_is_sec_mem ob \<longrightarrow>
      dunder_unmap_sma_page env ob page force mode reason s
        = (Inl BUG, s\<lparr>klog := klog s @ [Ev_pr_err Unmap_non_sma]\<rparr>))
   \<and> (u_is_sec_mem ob \<and> u_writeback ob \<and> page \<notin> held s \<and>
        (\<not> u_contended ob \<or>
           (force \<and> mode \<noteq> MIGRATE_ASYNC \<and> current_flags s AND PF_MEMALLOC = 0)) \<longrightarrow>
      fst (dunder_unmap_sma_page env ob page force mode reason s) = Inl BUG)
   \<and> (page \<in> set (from_head s) \<and> \<not> u_is_sec_mem (e_unmap env page 0) \<longrightarrow>
      fst (unmap_sma_pages env mode reason s) = Inl BUG \<and>
      fst (migrate_sma_pages env mode reason s) = Inl BUG)"
  using unmap_non_secure [of ob env page force mode reason s]
    unmap_writeback [of ob page s force mode env reason]
    unmap_sma_pages_non_secure [of page s env mode reason]
    migrate_sma_pages_non_secure [of page s env mode reason]
  by (simp add: pr_err_def ev_def)

theorem unmap_rejects_non_secure_and_writeback_witness:
  "dunder_unmap_sma_page env_quiet (ok_unmap\<lparr>u_is_sec_mem := False\<rparr>) 7 False MIGRATE_SYNC 0
      (batch [7])
     = (Inl BUG, (batch [7])\<lparr>klog := [Ev_pr_err Unmap_non_sma]\<rparr>)
   \<and> fst (dunder_unmap_sma_page env_quiet (ok_unmap\<lparr>u_writeback := True\<rparr>) 7 False
            MIGRATE_SYNC 0 (batch [7])) = Inl BUG
   \<and> fst (unmap_sma_pages (env_of (\<lambda>p k. ok_unmap\<lparr>u_is_sec_mem := (p \<noteq> 7)\<rparr>) (\<lambda>p k. ok_move p))
            MIGRATE_SYNC 0 (batch [6, 7])) = Inl BUG
   \<and> fst (migrate_sma_pages (env_of (\<lambda>p k. ok_unmap\<lparr>u_is_sec_mem := (p \<noteq> 7)\<rparr>) (\<lambda>p k. ok_move p))
            MIGRATE_SYNC 0 (batch [6, 7])) = Inl BUG"
  using unmap_rejects_non_secure_and_writeback
          [of "ok_unmap\<lparr>u_is_sec_mem := False\<rparr>" env_quiet 7 False MIGRATE_SYNC 0 "batch [7]"]
        unmap_rejects_non_secure_and_writeback
          [of "ok_unmap\<lparr>u_writeback := True\<rparr>" env_quiet 7 False MIGRATE_SYNC 0 "batch [7]"]
        unmap_rejects_non_secure_and_writeback
          [of ok_unmap "env_of (\<lambda>p k. ok_unmap\<lparr>u_is_sec_mem := (p \<noteq> 7)\<rparr>) (\<lambda>p k. ok_move p)"
              7 False MIGRATE_SYNC 0 "batch [6, 7]"]
  by (simp add: batch_defs)

subsection \<open>The lock a failed unmap keeps\<close>

lemma unmap_locked_held:
  "p \<in> held s \<Longrightarrow> p \<noteq> page \<Longrightarrow> p \<in> held (snd (unmap_locked env ob page is_lru s))"
  by (simp add: unmap_locked_def prim_defs Let_def)

lemma unmap_sma_page_keeps_held:
  "p \<in> held s \<Longrightarrow> p \<in> held (snd (unmap_sma_page env ob q force mode reason s))"
  by (cases "p = q")
     (auto simp: unmap_sma_page_def dunder_unmap_sma_page_def trylock_page_def lock_page_def
        Let_def pr_err_def ev_def unmap_locked_held)

lemma unmap_locked_null_mapping_mapped:
  assumes "\<not> u_writeback ob" "is_lru" "\<not> u_mapping ob" "u_mapped ob"
    and "e_debug_vm env \<longrightarrow> \<not> u_anon ob \<and> \<not> u_has_private ob"
  shows "fst (unmap_locked env ob page is_lru s) = Inr (- EAGAIN) \<and>
         held (snd (unmap_locked env ob page is_lru s)) = held s"
  using assms by (auto simp: unmap_locked_def prim_defs Let_def)

lemma unmap_null_mapping_mapped:
  assumes "u_is_sec_mem ob" "\<not> u_writeback ob" "\<not> u_movable ob" "\<not> u_mapping ob" "u_mapped ob"
    and "e_debug_vm env \<longrightarrow> \<not> u_anon ob \<and> \<not> u_has_private ob"
    and "page \<notin> held s"
    and "\<not> u_contended ob \<or>
           (force \<and> mode \<noteq> MIGRATE_ASYNC \<and> current_flags s AND PF_MEMALLOC = 0)"
  shows "fst (dunder_unmap_sma_page env ob page force mode reason s) = Inr (- EAGAIN) \<and>
         page \<in> held (snd (dunder_unmap_sma_page env ob page force mode reason s))"
  using assms
  by (auto simp: dunder_unmap_sma_page_def trylock_page_def lock_page_def Let_def
        unmap_locked_null_mapping_mapped)

lemma unmap_failed_ttu_unlocks:
  assumes "u_is_sec_mem ob" "\<not> u_writeback ob" "\<not> u_movable ob" "u_mapping ob" "u_mapped ob"
    and "\<not> u_ttu_ok ob"
    and "e_debug_vm env \<longrightarrow> \<not> u_anon ob \<or> u_ksm ob \<or> u_anon_vma ob"
    and "page \<notin> held s"
    and "\<not> u_contended ob \<or>
           (force \<and> mode \<noteq> MIGRATE_ASYNC \<and> current_flags s AND PF_MEMALLOC = 0)"
  shows "fst (dunder_unmap_sma_page env ob page force mode reason s) = Inr (- EAGAIN) \<and>
         page \<notin> held (snd (dunder_unmap_sma_page env ob page force mode reason s))"
  using assms
  by (auto simp: dunder_unmap_sma_page_def trylock_page_def lock_page_def Let_def
        unmap_locked_def prim_defs)

lemma held_blocks_trylock: "page \<in> held s \<Longrightarrow> fst (trylock_page c page s) = False"
  by (simp add: trylock_page_def)

text \<open>
  Claim C10. When \<^verbatim>\<open>page->mapping\<close> is NULL and the page is still mapped,
  \<^verbatim>\<open>__unmap_sma_page\<close> returns \<^verbatim>\<open>-EAGAIN\<close> and the page lock it took stays
  held. From then on every \<^verbatim>\<open>trylock_page\<close> on that page fails, and no call of
  \<^verbatim>\<open>unmap_sma_page\<close>, on this page or another, releases the lock. The failure
  path of a page with a mapping, where \<^verbatim>\<open>try_to_unmap\<close> fails, does release
  it.
\<close>

theorem null_mapping_still_mapped_keeps_lock:
  assumes "u_is_sec_mem ob" "\<not> u_writeback ob" "\<not> u_movable ob"
    and "\<not> u_mapping ob" "u_mapped ob"
    and "e_debug_vm env \<longrightarrow> \<not> u_anon ob \<and> \<not> u_has_private ob"
    and "page \<notin> held s"
    and "\<not> u_contended ob \<or>
           (force \<and> mode \<noteq> MIGRATE_ASYNC \<and> current_flags s AND PF_MEMALLOC = 0)"
  shows "fst (dunder_unmap_sma_page env ob page force mode reason s) = Inr (- EAGAIN)
         \<and> page \<in> held (snd (dunder_unmap_sma_page env ob page force mode reason s))
         \<and> (\<forall>env2 ob2 q force2 mode2 s2. page \<in> held s2 \<longrightarrow>
               fst (trylock_page (u_contended ob2) page s2) = False \<and>
               page \<in> held (snd (unmap_sma_page env2 ob2 q force2 mode2 reason s2)))
         \<and> (u_ttu_ok ob \<or>
              page \<notin> held (snd (dunder_unmap_sma_page env (ob\<lparr>u_mapping := True\<rparr>) page force
                                   mode reason s)))"
proof -
  note a = unmap_null_mapping_mapped [OF assms(1-8), of reason]
  have d: "\<forall>env2 ob2 q force2 mode2 s2. page \<in> held s2 \<longrightarrow>
               fst (trylock_page (u_contended ob2) page s2) = False \<and>
               page \<in> held (snd (unmap_sma_page env2 ob2 q force2 mode2 reason s2))"
    using held_blocks_trylock unmap_sma_page_keeps_held by blast
  have e: "u_ttu_ok ob \<or>
              page \<notin> held (snd (dunder_unmap_sma_page env (ob\<lparr>u_mapping := True\<rparr>) page force
                                   mode reason s))"
  proof (cases "u_ttu_ok ob")
    case True
    then show ?thesis by simp
  next
    case False
    have "page \<notin> held (snd (dunder_unmap_sma_page env (ob\<lparr>u_mapping := True\<rparr>) page force
                                   mode reason s))"
      using assms False
      by (intro unmap_failed_ttu_unlocks [THEN conjunct2]) auto
    then show ?thesis by simp
  qed
  from a d e show ?thesis by blast
qed

theorem null_mapping_still_mapped_keeps_lock_witness:
  "fst (dunder_unmap_sma_page env_quiet (never_unmaps\<lparr>u_mapping := False, u_anon := False\<rparr>) 7
          False MIGRATE_SYNC 0 (batch [7])) = Inr (- EAGAIN)
   \<and> 7 \<in> held (snd (dunder_unmap_sma_page env_quiet
                       (never_unmaps\<lparr>u_mapping := False, u_anon := False\<rparr>) 7
                       False MIGRATE_SYNC 0 (batch [7])))
   \<and> fst (trylock_page False 7 ((batch [7])\<lparr>held := {7}\<rparr>)) = False
   \<and> 7 \<notin> held (snd (dunder_unmap_sma_page env_quiet (never_unmaps\<lparr>u_anon := False\<rparr>) 7
                       False MIGRATE_SYNC 0 (batch [7])))"
  using null_mapping_still_mapped_keeps_lock
          [of "never_unmaps\<lparr>u_mapping := False, u_anon := False\<rparr>" env_quiet 7 "batch [7]"
              False MIGRATE_SYNC 0]
  by (simp add: batch_defs trylock_page_def)

subsection \<open>The three lists partition the batch\<close>

lemma dunder_move_sma_page_lists:
  "dunder_move_sma_page ob page newpage mode s = (r, s') \<Longrightarrow>
     from_head s' = from_head s \<and> unmapped_head s' = unmapped_head s \<and>
     moved_head s' = moved_head s"
  by (auto simp: dunder_move_sma_page_def prim_defs Let_def split: if_splits)

lemma move_sma_page_lists:
  "move_sma_page env ob page mode reason s = (r, s') \<Longrightarrow>
     from_head s' = from_head s \<and> unmapped_head s' = unmapped_head s \<and>
     moved_head s' = moved_head s"
  by (auto simp: move_sma_page_def prim_defs Let_def
       dest!: dunder_move_sma_page_lists split: if_splits option.splits prod.splits)

lemma all_pages_from_to_unmapped:
  "p \<in> set (from_head s) \<Longrightarrow> all_pages (from_to_unmapped p s) = all_pages s"
  by (simp add: all_pages_def from_to_unmapped_def)

lemma all_pages_unmapped_to_moved:
  "p \<in> set (unmapped_head s) \<Longrightarrow> all_pages (unmapped_to_moved p s) = all_pages s"
  by (simp add: all_pages_def unmapped_to_moved_def)

lemma all_pages_cong:
  "from_head s' = from_head s \<Longrightarrow> unmapped_head s' = unmapped_head s \<Longrightarrow>
   moved_head s' = moved_head s \<Longrightarrow> all_pages s' = all_pages s"
  by (simp add: all_pages_def)

lemma pr_err_lists [simp]:
  "from_head (pr_err site s) = from_head s"
  "unmapped_head (pr_err site s) = unmapped_head s"
  "moved_head (pr_err site s) = moved_head s"
  by (simp_all add: pr_err_def ev_def)

lemma all_pages_pr_err [simp]: "all_pages (pr_err site s) = all_pages s"
  by (simp add: all_pages_def)

lemma mset_tail_sub: "mset (q # xs) \<subseteq># M \<Longrightarrow> mset xs \<subseteq># M"
  by (metis mset.simps(2) mset_subset_eq_insertD subset_mset.less_imp_le)

lemma unmap_entries_all_pages:
  "mset xs \<subseteq># mset (from_head s) \<Longrightarrow>
   all_pages (snd (unmap_entries env mode reason pass xs lv s)) = all_pages s"
proof (induction xs arbitrary: lv s)
  case Nil
  then show ?case by simp
next
  case (Cons q xs)
  obtain r s1 where U: "unmap_sma_page env (e_unmap env q pass) q (2 < pass) mode reason s = (r, s1)"
    by fastforce
  note L = unmap_sma_page_lists [OF U]
  from L have A: "all_pages s1 = all_pages s" by (simp add: all_pages_def)
  from Cons.prems L have sub: "mset (q # xs) \<subseteq># mset (from_head s1)" by simp
  then have q: "q \<in> set (from_head s1)"
    by (metis list.set_intros(1) mset_subset_eqD set_mset_mset)
  from sub have xs: "mset xs \<subseteq># mset (from_head s1)"
    by (rule mset_tail_sub)
  from sub have xs2: "mset xs \<subseteq># mset (from_head (from_to_unmapped q s1))"
    by (simp add: from_to_unmapped_def insert_subset_eq_iff)
  have step: "all_pages (snd (unmap_entries env mode reason pass xs lv' s2)) = all_pages s"
    if "mset xs \<subseteq># mset (from_head s2)" "all_pages s2 = all_pages s" for lv' s2
    using Cons.IH [OF that(1)] that(2) by simp
  show ?case
  proof (cases r)
    case (Inl f)
    with U A show ?thesis by simp
  next
    case (Inr rc)
    have h1: "all_pages (snd (unmap_entries env mode reason pass xs lv' s1)) = all_pages s" for lv'
      using xs A by (rule step)
    have h2: "all_pages (snd (unmap_entries env mode reason pass xs lv' (pr_err site s1))) = all_pages s"
      for lv' site
      using xs A by (intro step) simp_all
    have h3: "all_pages (snd (unmap_entries env mode reason pass xs lv' (from_to_unmapped q s1)))
               = all_pages s" for lv'
      using xs2 A q by (intro step) (simp_all add: all_pages_from_to_unmapped)
    have h4: "all_pages (snd (unmap_entries env mode reason pass xs lv'
                (if pass = 10 then pr_err site s1 else s1))) = all_pages s" for lv' site
      using xs A by (intro step) simp_all
    consider "rc = - EAGAIN" | "rc \<noteq> - EAGAIN" "rc = MIGRATEPAGE_SUCCESS"
      | "rc \<noteq> - EAGAIN" "rc \<noteq> MIGRATEPAGE_SUCCESS" by blast
    then show ?thesis
    proof cases
      case 1
      with U Inr show ?thesis by (simp add: h4 split del: if_split)
    next
      case 2
      with U Inr show ?thesis by (simp add: h3 split del: if_split)
    next
      case 3
      with U Inr show ?thesis by (simp add: h2 split del: if_split)
    qed
  qed
qed

lemma unmap_passes_all_pages:
  "all_pages (snd (unmap_passes env mode reason pass lv s)) = all_pages s"
proof (induction env mode reason pass lv s rule: unmap_passes.induct)
  case (1 env mode reason pass lv s)
  show ?case
  proof (cases "pass < 10 \<and> l_retry lv \<noteq> 0")
    case False
    then show ?thesis by (subst unmap_passes.simps) auto
  next
    case True
    obtain r s1 where E: "unmap_entries env mode reason pass (from_head s) (lv\<lparr>l_retry := 0\<rparr>) s = (r, s1)"
      by fastforce
    from unmap_entries_all_pages [of "from_head s" s env mode reason pass "lv\<lparr>l_retry := 0\<rparr>"] E
    have A: "all_pages s1 = all_pages s" by simp
    show ?thesis
    proof (cases r)
      case (Inl f)
      with True E A show ?thesis by (subst unmap_passes.simps) simp
    next
      case (Inr lv1)
      from "1.IH" [OF True E [symmetric] Inr] A True E Inr
      show ?thesis by (subst unmap_passes.simps) simp
    qed
  qed
qed

lemma unmap_sma_pages_all_pages:
  "all_pages (snd (unmap_sma_pages env mode reason s)) = all_pages s"
  using unmap_passes_all_pages
          [of env mode reason 0 "\<lparr>l_rc = MIGRATEPAGE_SUCCESS, l_retry = 1, l_nr_succeeded = 0\<rparr>" s]
  by (auto simp: unmap_sma_pages_def split: prod.splits sum.splits)

lemma move_entries_all_pages:
  "mset xs \<subseteq># mset (unmapped_head s) \<Longrightarrow>
   all_pages (snd (move_entries env mode reason pass xs lv s)) = all_pages s"
proof (induction xs arbitrary: lv s)
  case Nil
  then show ?case by simp
next
  case (Cons q xs)
  obtain r s1 where U: "move_sma_page env (e_move env q pass) q mode reason s = (r, s1)"
    by fastforce
  note L = move_sma_page_lists [OF U]
  from L have A: "all_pages s1 = all_pages s" by (simp add: all_pages_def)
  from Cons.prems L have sub: "mset (q # xs) \<subseteq># mset (unmapped_head s1)" by simp
  then have q: "q \<in> set (unmapped_head s1)"
    by (metis list.set_intros(1) mset_subset_eqD set_mset_mset)
  from sub have xs: "mset xs \<subseteq># mset (unmapped_head s1)"
    by (rule mset_tail_sub)
  from sub have xs2: "mset xs \<subseteq># mset (unmapped_head (unmapped_to_moved q s1))"
    by (simp add: unmapped_to_moved_def insert_subset_eq_iff)
  have step: "all_pages (snd (move_entries env mode reason pass xs lv' s2)) = all_pages s"
    if "mset xs \<subseteq># mset (unmapped_head s2)" "all_pages s2 = all_pages s" for lv' s2
    using Cons.IH [OF that(1)] that(2) by simp
  show ?case
  proof (cases r)
    case (Inl f)
    with U A show ?thesis by simp
  next
    case (Inr rc)
    have h1: "all_pages (snd (move_entries env mode reason pass xs lv' s1)) = all_pages s" for lv'
      using xs A by (rule step)
    have h2: "all_pages (snd (move_entries env mode reason pass xs lv' (pr_err site s1)))
                = all_pages s" for lv' site
      using xs A by (intro step) simp_all
    have h3: "all_pages (snd (move_entries env mode reason pass xs lv' (unmapped_to_moved q s1)))
               = all_pages s" for lv'
      using xs2 A q by (intro step) (simp_all add: all_pages_unmapped_to_moved)
    show ?thesis
      using U Inr by (simp add: h1 h2 h3)
  qed
qed

lemma move_passes_all_pages:
  "all_pages (snd (move_passes env mode reason pass lv s)) = all_pages s"
proof (induction env mode reason pass lv s rule: move_passes.induct)
  case (1 env mode reason pass lv s)
  show ?case
  proof (cases "pass < 10 \<and> l_retry lv \<noteq> 0")
    case False
    then show ?thesis by (subst move_passes.simps) auto
  next
    case True
    obtain r s1 where
      E: "move_entries env mode reason pass (unmapped_head s) (lv\<lparr>l_retry := 0\<rparr>) s = (r, s1)"
      by fastforce
    from move_entries_all_pages [of "unmapped_head s" s env mode reason pass "lv\<lparr>l_retry := 0\<rparr>"] E
    have A: "all_pages s1 = all_pages s" by simp
    show ?thesis
    proof (cases r)
      case (Inl f)
      with True E A show ?thesis by (subst move_passes.simps) simp
    next
      case (Inr lv1)
      from "1.IH" [OF True E [symmetric] Inr] A True E Inr
      show ?thesis by (subst move_passes.simps) simp
    qed
  qed
qed

lemma move_sma_pages_all_pages:
  "all_pages (snd (move_sma_pages env mode reason s)) = all_pages s"
  using move_passes_all_pages
          [of env mode reason 0 "\<lparr>l_rc = MIGRATEPAGE_SUCCESS, l_retry = 1, l_nr_succeeded = 0\<rparr>" s]
  by (auto simp: move_sma_pages_def split: prod.splits sum.splits)

lemma all_pages_migrate_prologue: "all_pages (migrate_prologue s) = mset (from_head s)"
  by (simp add: all_pages_def migrate_prologue_def Let_def)

lemma all_pages_issue_smc [simp]: "all_pages (issue_smc a b s) = all_pages s"
  by (simp add: all_pages_def issue_smc_def ev_def Let_def)

lemma all_pages_migrate_out [simp]: "all_pages (snd (migrate_out sw rc s)) = all_pages s"
  by (simp add: all_pages_def migrate_out_def)

lemma migrate_sma_pages_body_all_pages:
  "all_pages (snd (migrate_sma_pages_body env mode reason s)) = mset (from_head s)"
proof -
  obtain r1 s1 where U: "unmap_sma_pages env mode reason (migrate_prologue s) = (r1, s1)"
    by fastforce
  from unmap_sma_pages_all_pages [of env mode reason "migrate_prologue s"] U
  have A: "all_pages s1 = mset (from_head s)" by (simp add: all_pages_migrate_prologue)
  obtain r2 s2 where M: "move_sma_pages env MIGRATE_SYNC_NO_COPY reason
       (issue_smc (src_base_pfn_of env s) (e_dst_base_pfn env) s1) = (r2, s2)"
    by fastforce
  from move_sma_pages_all_pages [of env MIGRATE_SYNC_NO_COPY reason
       "issue_smc (src_base_pfn_of env s) (e_dst_base_pfn env) s1"] M A
  have B: "all_pages s2 = mset (from_head s)" by simp
  show ?thesis
    using U M A B by (cases r1; cases r2) (simp_all add: migrate_sma_pages_body_def Let_def)
qed

text \<open>
  Claim C2, amended. Whatever the pages do, at the return statement of
  \<^verbatim>\<open>migrate_sma_pages\<close> (or where a \<^verbatim>\<open>BUG()\<close> or a blocked \<^verbatim>\<open>lock_page\<close> stops
  it, at any entry of any pass) the pages on \<^verbatim>\<open>from\<close>, \<^verbatim>\<open>unmapped_head\<close> and
  \<^verbatim>\<open>moved_head\<close> are, with multiplicity, the pages \<^verbatim>\<open>from\<close> held at the call:
  none is dropped, and when the batch holds no page twice, no page is on two
  lists or twice on one. The same holds at every point on the way: each phase
  alone, from any state, keeps the pages of the three lists, and so does each
  step a phase is made of, the call for one page and the move of an entry to
  the next list. After the return the caller's list \<^verbatim>\<open>from\<close> holds pages of
  the batch only, none more often than before.
\<close>

theorem lists_partition_the_batch:
  "mset (from_head (snd (migrate_sma_pages_body env mode reason s)))
     + mset (unmapped_head (snd (migrate_sma_pages_body env mode reason s)))
     + mset (moved_head (snd (migrate_sma_pages_body env mode reason s))) = mset (from_head s)
   \<and> (distinct (from_head s) \<longrightarrow>
        distinct (from_head (snd (migrate_sma_pages_body env mode reason s))
                  @ unmapped_head (snd (migrate_sma_pages_body env mode reason s))
                  @ moved_head (snd (migrate_sma_pages_body env mode reason s))))
   \<and> all_pages (snd (unmap_sma_pages env mode reason s)) = all_pages s
   \<and> all_pages (snd (move_sma_pages env mode reason s)) = all_pages s
   \<and> all_pages (snd (unmap_sma_page env uob q force mode reason s)) = all_pages s
   \<and> all_pages (snd (move_sma_page env mob q mode reason s)) = all_pages s
   \<and> (q \<in> set (from_head s) \<longrightarrow> all_pages (from_to_unmapped q s) = all_pages s)
   \<and> (q \<in> set (unmapped_head s) \<longrightarrow> all_pages (unmapped_to_moved q s) = all_pages s)
   \<and> mset (from_head (snd (migrate_sma_pages env mode reason s))) \<subseteq># mset (from_head s)"
proof -
  let ?s' = "snd (migrate_sma_pages_body env mode reason s)"
  have A: "mset (from_head ?s' @ unmapped_head ?s' @ moved_head ?s') = mset (from_head s)"
    using migrate_sma_pages_body_all_pages [of env mode reason s]
    by (simp add: all_pages_def add.assoc)
  have D: "distinct (from_head ?s' @ unmapped_head ?s' @ moved_head ?s')"
    if "distinct (from_head s)"
    using that mset_eq_imp_distinct_iff [OF A] by simp
  have U: "all_pages (snd (unmap_sma_page env uob q force mode reason s)) = all_pages s"
    using unmap_sma_page_lists [of env uob q force mode reason s]
    by (cases "unmap_sma_page env uob q force mode reason s") (simp add: all_pages_def)
  have M: "all_pages (snd (move_sma_page env mob q mode reason s)) = all_pages s"
    using move_sma_page_lists [of env mob q mode reason s]
    by (cases "move_sma_page env mob q mode reason s") (simp add: all_pages_def)
  have F: "from_head (snd (migrate_sma_pages env mode reason s)) = from_head ?s'"
    by (simp add: migrate_sma_pages_def end_of_scope_def split: prod.splits sum.splits)
  have "mset (from_head ?s') \<subseteq># mset (from_head s)"
    using A by (metis mset_append mset_subset_eq_add_left)
  with F have R: "mset (from_head (snd (migrate_sma_pages env mode reason s)))
                    \<subseteq># mset (from_head s)"
    by simp
  from A D U M R show ?thesis
    by (simp add: unmap_sma_pages_all_pages move_sma_pages_all_pages add.assoc
          all_pages_from_to_unmapped all_pages_unmapped_to_moved)
qed

theorem lists_partition_the_batch_witness:
  "distinct (from_head (batch [1, 2, 3]))
   \<and> distinct (from_head (snd (migrate_sma_pages_body env_quiet MIGRATE_SYNC 0 (batch [1, 2, 3])))
               @ unmapped_head (snd (migrate_sma_pages_body env_quiet MIGRATE_SYNC 0
                                       (batch [1, 2, 3])))
               @ moved_head (snd (migrate_sma_pages_body env_quiet MIGRATE_SYNC 0
                                    (batch [1, 2, 3]))))
   \<and> mset (from_head (snd (migrate_sma_pages_body env_quiet MIGRATE_SYNC 0 (batch [1, 2, 3]))))
       + mset (unmapped_head (snd (migrate_sma_pages_body env_quiet MIGRATE_SYNC 0
                                     (batch [1, 2, 3]))))
       + mset (moved_head (snd (migrate_sma_pages_body env_quiet MIGRATE_SYNC 0
                                  (batch [1, 2, 3]))))
       = mset (from_head (batch [1, 2, 3]))
   \<and> 2 \<in> set (from_head (batch [1, 2, 3]))
   \<and> all_pages (from_to_unmapped 2 (batch [1, 2, 3])) = all_pages (batch [1, 2, 3])
   \<and> 2 \<in> set (unmapped_head (from_to_unmapped 2 (batch [1, 2, 3])))
   \<and> all_pages (unmapped_to_moved 2 (from_to_unmapped 2 (batch [1, 2, 3])))
       = all_pages (from_to_unmapped 2 (batch [1, 2, 3]))"
  using lists_partition_the_batch
          [of env_quiet MIGRATE_SYNC 0 "batch [1, 2, 3]" ok_unmap 2 False "ok_move 2"]
        lists_partition_the_batch
          [of env_quiet MIGRATE_SYNC 0 "from_to_unmapped 2 (batch [1, 2, 3])" ok_unmap 2 False
              "ok_move 2"]
  by (simp add: batch_def from_to_unmapped_def)

subsection \<open>Facts kept by every step of a phase\<close>

text \<open>A transitive relation between states that each per-page call, each list
  move and each log line respects holds between the start of a phase and its
  end, whatever the outcome.\<close>

lemma unmap_entries_rel:
  assumes trans: "\<And>a b c. R a b \<Longrightarrow> R b c \<Longrightarrow> R a c"
    and page: "\<And>q k force s.
              R s (snd (unmap_sma_page env (e_unmap env q k) q force mode reason s))"
    and shuffle: "\<And>q s. R s (from_to_unmapped q s)"
    and err: "\<And>site s. R s (pr_err site s)"
    and start: "R s0 s"
  shows "R s0 (snd (unmap_entries env mode reason pass xs lv s))"
  using start
proof (induction xs arbitrary: lv s)
  case Nil
  then show ?case by simp
next
  case (Cons q xs)
  obtain r s1 where U: "unmap_sma_page env (e_unmap env q pass) q (2 < pass) mode reason s = (r, s1)"
    by fastforce
  from page [of s q pass "2 < pass"] U Cons.prems
  have A: "R s0 s1" using trans by fastforce
  show ?case
  proof (cases r)
    case (Inl f)
    with U A show ?thesis by simp
  next
    case (Inr rc)
    have h2: "R s0 (pr_err site s1)" for site
      using A err trans by blast
    have h3: "R s0 (from_to_unmapped q s1)"
      using A shuffle trans by blast
    have h4: "R s0 (if pass = 10 then pr_err site s1 else s1)" for site
      using A h2 by simp
    consider "rc = - EAGAIN" | "rc \<noteq> - EAGAIN" "rc = MIGRATEPAGE_SUCCESS"
      | "rc \<noteq> - EAGAIN" "rc \<noteq> MIGRATEPAGE_SUCCESS" by blast
    then show ?thesis
    proof cases
      case 1
      with U Inr Cons.IH [OF h4] show ?thesis by (simp split del: if_split)
    next
      case 2
      with U Inr Cons.IH [OF h3] show ?thesis by (simp split del: if_split)
    next
      case 3
      with U Inr Cons.IH [OF h2] show ?thesis by (simp split del: if_split)
    qed
  qed
qed

lemma unmap_passes_rel:
  assumes start: "R s0 s"
    and trans: "\<And>a b c. R a b \<Longrightarrow> R b c \<Longrightarrow> R a c"
    and page: "\<And>q k force s.
              R s (snd (unmap_sma_page env (e_unmap env q k) q force mode reason s))"
    and shuffle: "\<And>q s. R s (from_to_unmapped q s)"
    and err: "\<And>site s. R s (pr_err site s)"
  shows "R s0 (snd (unmap_passes env mode reason pass lv s))"
  using assms
proof (induction env mode reason pass lv s rule: unmap_passes.induct)
  case (1 env mode reason pass lv s)
  show ?case
  proof (cases "pass < 10 \<and> l_retry lv \<noteq> 0")
    case False
    with "1.prems"(1) show ?thesis by (subst unmap_passes.simps) auto
  next
    case True
    obtain r s1 where
      E: "unmap_entries env mode reason pass (from_head s) (lv\<lparr>l_retry := 0\<rparr>) s = (r, s1)"
      by fastforce
    have "R s0 (snd (unmap_entries env mode reason pass (from_head s) (lv\<lparr>l_retry := 0\<rparr>) s))"
      by (rule unmap_entries_rel [of R, OF "1.prems"(2-5) "1.prems"(1)])
    with E have A: "R s0 s1" by simp
    show ?thesis
    proof (cases r)
      case (Inl f)
      with True E A show ?thesis by (subst unmap_passes.simps) simp
    next
      case (Inr lv1)
      from "1.IH" [OF True E [symmetric] Inr A "1.prems"(2-5)] True E Inr
      show ?thesis by (subst unmap_passes.simps) simp
    qed
  qed
qed

lemma unmap_sma_pages_rel:
  assumes trans: "\<And>a b c. R a b \<Longrightarrow> R b c \<Longrightarrow> R a c"
    and page: "\<And>q k force s.
              R s (snd (unmap_sma_page env (e_unmap env q k) q force mode reason s))"
    and shuffle: "\<And>q s. R s (from_to_unmapped q s)"
    and err: "\<And>site s. R s (pr_err site s)"
    and start: "R s s"
  shows "R s (snd (unmap_sma_pages env mode reason s))"
proof -
  have "R s (snd (unmap_passes env mode reason 0
           \<lparr>l_rc = MIGRATEPAGE_SUCCESS, l_retry = 1, l_nr_succeeded = 0\<rparr> s))"
    by (rule unmap_passes_rel [of R, OF start trans page shuffle err])
  then show ?thesis
    by (auto simp: unmap_sma_pages_def split: prod.splits sum.splits)
qed

lemma move_entries_rel:
  assumes trans: "\<And>a b c. R a b \<Longrightarrow> R b c \<Longrightarrow> R a c"
    and page: "\<And>q k s. R s (snd (move_sma_page env (e_move env q k) q mode reason s))"
    and shuffle: "\<And>q s. R s (unmapped_to_moved q s)"
    and err: "\<And>site s. R s (pr_err site s)"
    and start: "R s0 s"
  shows "R s0 (snd (move_entries env mode reason pass xs lv s))"
  using start
proof (induction xs arbitrary: lv s)
  case Nil
  then show ?case by simp
next
  case (Cons q xs)
  obtain r s1 where U: "move_sma_page env (e_move env q pass) q mode reason s = (r, s1)"
    by fastforce
  from page [of s q pass] U Cons.prems
  have A: "R s0 s1" using trans by fastforce
  show ?case
  proof (cases r)
    case (Inl f)
    with U A show ?thesis by simp
  next
    case (Inr rc)
    have h2: "R s0 (pr_err site s1)" for site
      using A err trans by blast
    have h3: "R s0 (unmapped_to_moved q s1)"
      using A shuffle trans by blast
    show ?thesis
      using U Inr Cons.IH [OF A] Cons.IH [OF h3] Cons.IH [OF h2] by simp
  qed
qed

lemma move_passes_rel:
  assumes start: "R s0 s"
    and trans: "\<And>a b c. R a b \<Longrightarrow> R b c \<Longrightarrow> R a c"
    and page: "\<And>q k s. R s (snd (move_sma_page env (e_move env q k) q mode reason s))"
    and shuffle: "\<And>q s. R s (unmapped_to_moved q s)"
    and err: "\<And>site s. R s (pr_err site s)"
  shows "R s0 (snd (move_passes env mode reason pass lv s))"
  using assms
proof (induction env mode reason pass lv s rule: move_passes.induct)
  case (1 env mode reason pass lv s)
  show ?case
  proof (cases "pass < 10 \<and> l_retry lv \<noteq> 0")
    case False
    with "1.prems"(1) show ?thesis by (subst move_passes.simps) auto
  next
    case True
    obtain r s1 where
      E: "move_entries env mode reason pass (unmapped_head s) (lv\<lparr>l_retry := 0\<rparr>) s = (r, s1)"
      by fastforce
    have "R s0 (snd (move_entries env mode reason pass (unmapped_head s) (lv\<lparr>l_retry := 0\<rparr>) s))"
      by (rule move_entries_rel [of R, OF "1.prems"(2-5) "1.prems"(1)])
    with E have A: "R s0 s1" by simp
    show ?thesis
    proof (cases r)
      case (Inl f)
      with True E A show ?thesis by (subst move_passes.simps) simp
    next
      case (Inr lv1)
      from "1.IH" [OF True E [symmetric] Inr A "1.prems"(2-5)] True E Inr
      show ?thesis by (subst move_passes.simps) simp
    qed
  qed
qed

lemma move_sma_pages_rel:
  assumes trans: "\<And>a b c. R a b \<Longrightarrow> R b c \<Longrightarrow> R a c"
    and page: "\<And>q k s. R s (snd (move_sma_page env (e_move env q k) q mode reason s))"
    and shuffle: "\<And>q s. R s (unmapped_to_moved q s)"
    and err: "\<And>site s. R s (pr_err site s)"
    and start: "R s s"
  shows "R s (snd (move_sma_pages env mode reason s))"
proof -
  have "R s (snd (move_passes env mode reason 0
           \<lparr>l_rc = MIGRATEPAGE_SUCCESS, l_retry = 1, l_nr_succeeded = 0\<rparr> s))"
    by (rule move_passes_rel [of R, OF start trans page shuffle err])
  then show ?thesis
    by (auto simp: move_sma_pages_def split: prod.splits sum.splits)
qed

subsection \<open>Runs of concrete batches\<close>

lemmas run_defs =
  migrate_sma_pages_def migrate_sma_pages_body_def end_of_scope_def
  migrate_prologue_def issue_smc_def src_base_pfn_of_def
  unmap_sma_pages_def move_sma_pages_def unmap_passes.simps move_passes.simps
  unmap_sma_page_def dunder_unmap_sma_page_def unmap_locked_def
  move_sma_page_def dunder_move_sma_page_def
  from_to_unmapped_def unmapped_to_moved_def migrate_out_def build_smc_req_def
  page_to_pfn_def PF_MEMALLOC_def PF_SWAPWRITE_def Let_def

text \<open>
  Claim C2 as stated (the three lists partition the batch after
  \<^verbatim>\<open>migrate_sma_pages\<close> too, in particular after an abort) fails at the return:
  \<^verbatim>\<open>unmapped_head\<close> and \<^verbatim>\<open>moved_head\<close> are locals. When page 1 unmaps and
  page 2 never does, the call returns \<^verbatim>\<open>-EAGAIN\<close>; page 1 was on
  \<^verbatim>\<open>unmapped_head\<close> at the return statement, and after the return the lists
  hold page 2 only, while the lock of page 1 is still held. After a batch
  where every page moves, the lists the caller is left with hold no page.
\<close>

theorem pages_off_every_list_counterexample:
  "fst (migrate_sma_pages env_first_only MIGRATE_SYNC 0 (batch [1, 2])) = Inr (- EAGAIN)
   \<and> unmapped_head (snd (migrate_sma_pages_body env_first_only MIGRATE_SYNC 0 (batch [1, 2])))
       = [1]
   \<and> all_pages (snd (migrate_sma_pages env_first_only MIGRATE_SYNC 0 (batch [1, 2]))) = mset [2]
   \<and> 1 \<in> held (snd (migrate_sma_pages env_first_only MIGRATE_SYNC 0 (batch [1, 2])))
   \<and> fst (migrate_sma_pages env_quiet MIGRATE_SYNC 0 (batch [1, 2])) = Inr 0
   \<and> all_pages (snd (migrate_sma_pages env_quiet MIGRATE_SYNC 0 (batch [1, 2]))) = {#}"
  by (simp add: env_first_only_def all_pages_def batch_defs run_defs prim_defs rc_defs)

text \<open>
  Claim C1 (a page left on the pending list after the retry loop makes
  \<^verbatim>\<open>migrate_sma_pages\<close> return non-zero without issuing the monitor call) fails
  on the code: \<^verbatim>\<open>unmap_sma_pages\<close> returns the code of the last entry it
  visited, not the number of entries left. In the batch of pages 1 and 2 where
  page 1 never unmaps and page 2 unmaps in the tenth pass, the last entry
  visited succeeded. The phase returns 0 with page 1 still on \<^verbatim>\<open>from\<close>;
  \<^verbatim>\<open>migrate_sma_pages\<close> issues the \<^verbatim>\<open>smc\<close> once and returns 0.
\<close>

theorem residual_batch_reaches_monitor:
  "fst (unmap_sma_pages env_late_success MIGRATE_SYNC 0 (migrate_prologue (batch [1, 2]))) = Inr 0
   \<and> from_head (snd (unmap_sma_pages env_late_success MIGRATE_SYNC 0
                       (migrate_prologue (batch [1, 2])))) = [1]
   \<and> fst (migrate_sma_pages env_late_success MIGRATE_SYNC 0 (batch [1, 2])) = Inr 0
   \<and> length (smc_calls (snd (migrate_sma_pages env_late_success MIGRATE_SYNC 0 (batch [1, 2]))))
       = 1
   \<and> from_head (snd (migrate_sma_pages env_late_success MIGRATE_SYNC 0 (batch [1, 2]))) = [1]"
  by (simp add: env_late_success_def smc_calls_def batch_defs run_defs prim_defs rc_defs)

text \<open>
  Claim C3 (\<^verbatim>\<open>is_migrating\<close> is false by the time \<^verbatim>\<open>migrate_sma_pages\<close> returns,
  on the abort path too) fails on the code: the \<^verbatim>\<open>goto out\<close> taken when the
  unmap phase fails skips \<^verbatim>\<open>is_migrating = false\<close>. For the batch of one page
  that never unmaps, \<^verbatim>\<open>migrate_sma_pages\<close> returns \<^verbatim>\<open>-EAGAIN\<close>, no \<^verbatim>\<open>smc\<close> was
  issued, and \<^verbatim>\<open>is_migrating\<close> is still true.
\<close>

theorem flag_stays_set_after_failed_unmap:
  "fst (migrate_sma_pages env_never MIGRATE_SYNC 0 (batch [1])) = Inr (- EAGAIN)
   \<and> is_migrating (snd (migrate_sma_pages env_never MIGRATE_SYNC 0 (batch [1])))
   \<and> smc_calls (snd (migrate_sma_pages env_never MIGRATE_SYNC 0 (batch [1]))) = []"
  by (simp add: env_never_def smc_calls_def batch_defs run_defs prim_defs rc_defs)

text \<open>
  Claim C6 (one page without a destination makes the batch report a partial
  failure) fails on the code in its last part. With four pages of which page 4,
  the first entry the move phase visits, gets no destination:
  \<^verbatim>\<open>get_new_page\<close> is called once for page 4, which is logged and is still
  on \<^verbatim>\<open>unmapped_head\<close> at the return statement; pages 1 to 3 are on
  \<^verbatim>\<open>moved_head\<close> there; and \<^verbatim>\<open>migrate_sma_pages\<close> returns 0, the code of the
  last entry visited, with \<^verbatim>\<open>from\<close> empty.
\<close>

theorem missing_destination_reported_as_success:
  "fst (migrate_sma_pages env_no_page MIGRATE_SYNC 0 (batch [1, 2, 3, 4])) = Inr 0
   \<and> moved_head (snd (migrate_sma_pages_body env_no_page MIGRATE_SYNC 0 (batch [1, 2, 3, 4])))
       = [1, 2, 3]
   \<and> unmapped_head (snd (migrate_sma_pages_body env_no_page MIGRATE_SYNC 0 (batch [1, 2, 3, 4])))
       = [4]
   \<and> count_list (klog (snd (migrate_sma_pages env_no_page MIGRATE_SYNC 0 (batch [1, 2, 3, 4]))))
        (Ev_get_new_page 4) = 1
   \<and> count_list (klog (snd (migrate_sma_pages env_no_page MIGRATE_SYNC 0 (batch [1, 2, 3, 4]))))
        (Ev_pr_err Move_no_newpage) = 1
   \<and> from_head (snd (migrate_sma_pages env_no_page MIGRATE_SYNC 0 (batch [1, 2, 3, 4]))) = []"
  by (simp add: env_no_page_def batch_defs run_defs prim_defs rc_defs)

subsection \<open>The number of passes\<close>

text \<open>Either loop leaves \<^verbatim>\<open>pass\<close> at 10 at most: from \<^verbatim>\<open>pass = 0\<close> it runs at
  most ten passes. That the loops return at all is the termination proof of
  \<open>unmap_passes\<close> and \<open>move_passes\<close>, but for a \<^verbatim>\<open>lock_page\<close> that blocks.\<close>

lemma unmap_passes_pass_bound:
  "unmap_passes env mode reason pass lv s = (Inr (lv', pass'), s') \<Longrightarrow>
   pass \<le> pass' \<and> (pass \<le> 10 \<longrightarrow> pass' \<le> 10)"
proof (induction env mode reason pass lv s rule: unmap_passes.induct)
  case (1 env mode reason pass lv s)
  show ?case
  proof (cases "pass < 10 \<and> l_retry lv \<noteq> 0")
    case False
    with "1.prems" show ?thesis by (subst (asm) unmap_passes.simps) auto
  next
    case True
    obtain r s1 where
      E: "unmap_entries env mode reason pass (from_head s) (lv\<lparr>l_retry := 0\<rparr>) s = (r, s1)"
      by fastforce
    show ?thesis
    proof (cases r)
      case (Inl f)
      with True E "1.prems" show ?thesis by (subst (asm) unmap_passes.simps) simp
    next
      case (Inr lv1)
      from "1.prems" True E Inr
      have "unmap_passes env mode reason (pass + 1) lv1 s1 = (Inr (lv', pass'), s')"
        by (subst (asm) unmap_passes.simps) simp
      from "1.IH" [OF True E [symmetric] Inr this] True show ?thesis by simp
    qed
  qed
qed

lemma move_passes_pass_bound:
  "move_passes env mode reason pass lv s = (Inr (lv', pass'), s') \<Longrightarrow>
   pass \<le> pass' \<and> (pass \<le> 10 \<longrightarrow> pass' \<le> 10)"
proof (induction env mode reason pass lv s rule: move_passes.induct)
  case (1 env mode reason pass lv s)
  show ?case
  proof (cases "pass < 10 \<and> l_retry lv \<noteq> 0")
    case False
    with "1.prems" show ?thesis by (subst (asm) move_passes.simps) auto
  next
    case True
    obtain r s1 where
      E: "move_entries env mode reason pass (unmapped_head s) (lv\<lparr>l_retry := 0\<rparr>) s = (r, s1)"
      by fastforce
    show ?thesis
    proof (cases r)
      case (Inl f)
      with True E "1.prems" show ?thesis by (subst (asm) move_passes.simps) simp
    next
      case (Inr lv1)
      from "1.prems" True E Inr
      have "move_passes env mode reason (pass + 1) lv1 s1 = (Inr (lv', pass'), s')"
        by (subst (asm) move_passes.simps) simp
      from "1.IH" [OF True E [symmetric] Inr this] True show ?thesis by simp
    qed
  qed
qed

text \<open>A page with a mapping structure that is mapped nowhere keeps its lock and
  \<^verbatim>\<open>-EAGAIN\<close> (neither branch of lines 66 to 86 is taken); the fourth pass
  (\<^verbatim>\<open>force\<close> set) then waits in \<^verbatim>\<open>lock_page\<close> for the lock the thread itself
  holds.\<close>

lemma hang_on_own_lock:
  "fst (unmap_sma_pages env_not_mapped MIGRATE_SYNC 0 (batch [1])) = Inl HANG"
  by (simp add: env_not_mapped_def batch_defs run_defs prim_defs rc_defs)

text \<open>
  Claim C8 (each phase loop makes at most 10 passes, then ends and declares
  batch failure if pages remain) fails on the code in its last part. The unmap
  loop of the batch of pages 1 and 2 above leaves \<^verbatim>\<open>pass = 10\<close>, \<^verbatim>\<open>retry = 1\<close>
  and \<^verbatim>\<open>rc = 0\<close>: page 1 remains and the phase returns 0. The move loop over
  pages 4, 3, 2, 1, where page 4 gets no destination, ends after one pass with
  \<^verbatim>\<open>retry = 0\<close> and \<^verbatim>\<open>rc = 0\<close>: page 4 remains and the phase returns 0.
\<close>

theorem loops_end_without_failure_code:
  "fst (unmap_passes env_late_success MIGRATE_SYNC 0 0
          \<lparr>l_rc = MIGRATEPAGE_SUCCESS, l_retry = 1, l_nr_succeeded = 0\<rparr> (batch [1, 2]))
     = Inr (\<lparr>l_rc = 0, l_retry = 1, l_nr_succeeded = 1\<rparr>, 10)
   \<and> from_head (snd (unmap_sma_pages env_late_success MIGRATE_SYNC 0 (batch [1, 2]))) = [1]
   \<and> fst (unmap_sma_pages env_late_success MIGRATE_SYNC 0 (batch [1, 2])) = Inr 0
   \<and> fst (move_passes env_no_page MIGRATE_SYNC_NO_COPY 0 0
          \<lparr>l_rc = MIGRATEPAGE_SUCCESS, l_retry = 1, l_nr_succeeded = 0\<rparr>
          ((batch [])\<lparr>unmapped_head := [4, 3, 2, 1]\<rparr>))
     = Inr (\<lparr>l_rc = 0, l_retry = 0, l_nr_succeeded = 3\<rparr>, 1)
   \<and> unmapped_head (snd (move_sma_pages env_no_page MIGRATE_SYNC_NO_COPY 0
                           ((batch [])\<lparr>unmapped_head := [4, 3, 2, 1]\<rparr>))) = [4]
   \<and> fst (move_sma_pages env_no_page MIGRATE_SYNC_NO_COPY 0
            ((batch [])\<lparr>unmapped_head := [4, 3, 2, 1]\<rparr>)) = Inr 0"
  by (simp add: env_late_success_def env_no_page_def batch_defs run_defs prim_defs rc_defs)

subsection \<open>The globals and the monitor call\<close>

text \<open>Neither phase issues an \<^verbatim>\<open>smc\<close> or writes \<^verbatim>\<open>is_migrating\<close>; the unmap
  phase changes \<^verbatim>\<open>migrate_ipns\<close> only in the slots its calls of
  \<^verbatim>\<open>try_to_unmap\<close> store into, the move phase not at all. When the unmap phase
  returns 0, one \<^verbatim>\<open>smc\<close> is issued, with \<^verbatim>\<open>is_migrating\<close> already false, and
  the flag is false at the return.\<close>

lemma smc_calls_ev [simp]: "smc_calls (ev e s) = smc_calls s @ smc_of e"
  by (simp add: smc_calls_def ev_def)

lemma smc_calls_pr_err [simp]: "smc_calls (pr_err site s) = smc_calls s"
  by (simp add: pr_err_def)


lemma foldl_upd_other:
  "i \<notin> fst ` set ws \<Longrightarrow> foldl (\<lambda>t (i, v). t(i := v)) t ws i = t i"
  by (induction ws arbitrary: t) auto

lemma written_ev [simp]: "written (ev e s) = written s \<union> slots_of e"
  by (auto simp: written_def ev_def)

lemma written_pr_err [simp]: "written (pr_err site s) = written s"
  by (simp add: pr_err_def)

lemma written_held [simp]: "written (s\<lparr>held := h\<rparr>) = written s"
  by (simp add: written_def)

lemma pr_err_globals [simp]:
  "is_migrating (pr_err site s) = is_migrating s"
  "migrate_ipns (pr_err site s) = migrate_ipns s"
  by (simp_all add: pr_err_def ev_def)

lemma unmap_locked_frame:
  "smc_calls (snd (unmap_locked env ob page is_lru s)) = smc_calls s
   \<and> is_migrating (snd (unmap_locked env ob page is_lru s)) = is_migrating s
   \<and> written s \<subseteq> written (snd (unmap_locked env ob page is_lru s))
   \<and> (i \<notin> written (snd (unmap_locked env ob page is_lru s)) \<longrightarrow>
        migrate_ipns (snd (unmap_locked env ob page is_lru s)) i = migrate_ipns s i)"
  by (auto simp: unmap_locked_def try_to_unmap_def record_ipns_def put_anon_vma_def
        unlock_page_def smc_calls_def ev_def pr_err_def written_def Let_def foldl_upd_other)

lemma unmap_sma_page_frame:
  "smc_calls (snd (unmap_sma_page env ob page force mode reason s)) = smc_calls s
   \<and> is_migrating (snd (unmap_sma_page env ob page force mode reason s)) = is_migrating s
   \<and> written s \<subseteq> written (snd (unmap_sma_page env ob page force mode reason s))
   \<and> (i \<notin> written (snd (unmap_sma_page env ob page force mode reason s)) \<longrightarrow>
        migrate_ipns (snd (unmap_sma_page env ob page force mode reason s)) i = migrate_ipns s i)"
proof -
  have h: "smc_calls (s\<lparr>held := x\<rparr>) = smc_calls s" for x
    by (simp add: smc_calls_def)
  show ?thesis
    using unmap_locked_frame [of env ob page "\<not> u_movable ob"
        "s\<lparr>held := insert page (held s)\<rparr>" i]
    by (simp add: unmap_sma_page_def dunder_unmap_sma_page_def trylock_page_def lock_page_def
          Let_def h)
qed

lemma dunder_move_sma_page_frame:
  "smc_calls (snd (dunder_move_sma_page ob page newpage mode s)) = smc_calls s
   \<and> is_migrating (snd (dunder_move_sma_page ob page newpage mode s)) = is_migrating s
   \<and> migrate_ipns (snd (dunder_move_sma_page ob page newpage mode s)) = migrate_ipns s
   \<and> written (snd (dunder_move_sma_page ob page newpage mode s)) = written s"
  by (simp add: dunder_move_sma_page_def trylock_page_def unlock_page_def smc_calls_def
        written_def ev_def pr_err_def Let_def)

lemma move_sma_page_frame:
  "smc_calls (snd (move_sma_page env ob page mode reason s)) = smc_calls s
   \<and> is_migrating (snd (move_sma_page env ob page mode reason s)) = is_migrating s
   \<and> migrate_ipns (snd (move_sma_page env ob page mode reason s)) = migrate_ipns s
   \<and> written (snd (move_sma_page env ob page mode reason s)) = written s"
proof (cases "m_newpage ob")
  case None
  then show ?thesis
    by (simp add: move_sma_page_def smc_calls_def written_def ev_def pr_err_def Let_def)
next
  case (Some newpage)
  obtain rc s2 where
    D: "dunder_move_sma_page ob page newpage mode (ev (Ev_get_new_page page) s) = (rc, s2)"
    by fastforce
  from dunder_move_sma_page_frame [of ob page newpage mode "ev (Ev_get_new_page page) s"] D
  have "smc_calls s2 = smc_calls s" "is_migrating s2 = is_migrating s"
    "migrate_ipns s2 = migrate_ipns s" "written s2 = written s"
    by (simp_all add: ev_def smc_calls_def written_def)
  with Some D show ?thesis
    by (simp add: move_sma_page_def Let_def pr_err_def ev_def smc_calls_def written_def)
qed

lemma unmap_sma_pages_frame:
  "smc_calls (snd (unmap_sma_pages env mode reason s)) = smc_calls s
   \<and> is_migrating (snd (unmap_sma_pages env mode reason s)) = is_migrating s
   \<and> written s \<subseteq> written (snd (unmap_sma_pages env mode reason s))
   \<and> (\<forall>i. i \<notin> written (snd (unmap_sma_pages env mode reason s)) \<longrightarrow>
            migrate_ipns (snd (unmap_sma_pages env mode reason s)) i = migrate_ipns s i)"
proof -
  let ?R = "\<lambda>s s'. smc_calls s' = smc_calls s \<and> is_migrating s' = is_migrating s \<and>
     written s \<subseteq> written s' \<and>
     (\<forall>i. i \<notin> written s' \<longrightarrow> migrate_ipns s' i = migrate_ipns s i)"
  have "?R s (snd (unmap_sma_pages env mode reason s))"
  proof (rule unmap_sma_pages_rel [of ?R])
    show "?R s (snd (unmap_sma_page env (e_unmap env q k) q force mode reason s))" for q k force s
      using unmap_sma_page_frame [of env "e_unmap env q k" q force mode reason s] by blast
    show "?R s (from_to_unmapped q s)" for q s
      by (simp add: from_to_unmapped_def smc_calls_def written_def)
    show "?R s (pr_err site s)" for site s
      by (simp add: pr_err_def ev_def smc_calls_def written_def)
    show "?R a c" if "?R a b" "?R b c" for a b c
      using that by (metis subset_iff)
  qed auto
  then show ?thesis by blast
qed

lemma move_sma_pages_frame:
  "smc_calls (snd (move_sma_pages env mode reason s)) = smc_calls s
   \<and> is_migrating (snd (move_sma_pages env mode reason s)) = is_migrating s
   \<and> migrate_ipns (snd (move_sma_pages env mode reason s)) = migrate_ipns s
   \<and> written (snd (move_sma_pages env mode reason s)) = written s"
proof -
  let ?R = "\<lambda>s s'. smc_calls s' = smc_calls s \<and> is_migrating s' = is_migrating s \<and>
     migrate_ipns s' = migrate_ipns s \<and> written s' = written s"
  have "?R s (snd (move_sma_pages env mode reason s))"
  proof (rule move_sma_pages_rel [of ?R])
    show "?R s (snd (move_sma_page env (e_move env q k) q mode reason s))" for q k s
      using move_sma_page_frame [of env "e_move env q k" q mode reason s] by blast
    show "?R s (unmapped_to_moved q s)" for q s
      by (simp add: unmapped_to_moved_def smc_calls_def written_def)
    show "?R s (pr_err site s)" for site s
      by (simp add: pr_err_def ev_def smc_calls_def written_def)
  qed auto
  then show ?thesis by blast
qed

lemma migrate_sma_pages_unmap_ok:
  assumes "fst (unmap_sma_pages env mode reason (migrate_prologue s)) = Inr 0"
  shows "smc_calls (snd (migrate_sma_pages env mode reason s))
           = smc_calls s @
             [(build_smc_req (src_base_pfn_of env s) (e_dst_base_pfn env)
                 ((snd (unmap_sma_pages env mode reason (migrate_prologue s)))
                    \<lparr>is_migrating := False\<rparr>), False)]
         \<and> \<not> is_migrating (snd (migrate_sma_pages env mode reason s))
         \<and> written (snd (migrate_sma_pages env mode reason s))
           = written (snd (unmap_sma_pages env mode reason (migrate_prologue s)))"
proof -
  obtain s1 where U: "unmap_sma_pages env mode reason (migrate_prologue s) = (Inr 0, s1)"
    using assms by (cases "unmap_sma_pages env mode reason (migrate_prologue s)") simp
  have P: "smc_calls (migrate_prologue s) = smc_calls s"
    by (simp add: migrate_prologue_def smc_calls_def Let_def)
  from unmap_sma_pages_frame [of env mode reason "migrate_prologue s"] U P
  have S1: "smc_calls s1 = smc_calls s" by simp
  let ?s2 = "issue_smc (src_base_pfn_of env s) (e_dst_base_pfn env) s1"
  have S2: "smc_calls ?s2 = smc_calls s @
       [(build_smc_req (src_base_pfn_of env s) (e_dst_base_pfn env) (s1\<lparr>is_migrating := False\<rparr>),
         False)]"
    and F2: "\<not> is_migrating ?s2"
    and W2: "written ?s2 = written s1"
    using S1 by (simp_all add: issue_smc_def Let_def smc_calls_def written_def ev_def)
  obtain r3 s3 where M: "move_sma_pages env MIGRATE_SYNC_NO_COPY reason ?s2 = (r3, s3)"
    by fastforce
  from move_sma_pages_frame [of env MIGRATE_SYNC_NO_COPY reason ?s2] M S2 F2 W2
  have S3: "smc_calls s3 = smc_calls s @
       [(build_smc_req (src_base_pfn_of env s) (e_dst_base_pfn env) (s1\<lparr>is_migrating := False\<rparr>),
         False)]"
    and F3: "\<not> is_migrating s3"
    and W3: "written s3 = written s1"
    by simp_all
  show ?thesis
    using U M S3 F3 W3
    by (cases r3) (simp_all add: migrate_sma_pages_def migrate_sma_pages_body_def
          end_of_scope_def Let_def migrate_out_def smc_calls_def written_def pr_err_def ev_def)
qed

text \<open>
  Claim C4, amended. \<^verbatim>\<open>migrate_sma_pages\<close> sets \<^verbatim>\<open>migrate_sec_vm_id\<close> and
  \<^verbatim>\<open>nr_migrate_pages\<close> to 0 and \<^verbatim>\<open>is_migrating\<close> to true before the unmap
  phase, and leaves \<^verbatim>\<open>migrate_ipns\<close> as it is. When the unmap phase returns 0,
  one request is sent, and it carries a copy of the table in which every slot
  that no \<^verbatim>\<open>try_to_unmap\<close> has stored into has the value it had before the
  call.
\<close>

theorem table_is_not_reset:
  assumes "fst (unmap_sma_pages env mode reason (migrate_prologue s)) = Inr 0"
  shows "migrate_sec_vm_id (migrate_prologue s) = 0
         \<and> nr_migrate_pages (migrate_prologue s) = 0
         \<and> is_migrating (migrate_prologue s)
         \<and> migrate_ipns (migrate_prologue s) = migrate_ipns s
         \<and> (\<exists>req. smc_calls (snd (migrate_sma_pages env mode reason s))
                     = smc_calls s @ [(req, False)]
               \<and> (\<forall>i. i \<notin> written (snd (migrate_sma_pages env mode reason s)) \<longrightarrow>
                     ipn_list req i = (if i < 2048 then migrate_ipns s i else 0)))"
proof -
  let ?s1 = "snd (unmap_sma_pages env mode reason (migrate_prologue s))"
  let ?req = "build_smc_req (src_base_pfn_of env s) (e_dst_base_pfn env)
                (?s1\<lparr>is_migrating := False\<rparr>)"
  have P: "migrate_ipns (migrate_prologue s) = migrate_ipns s"
    "migrate_sec_vm_id (migrate_prologue s) = 0" "nr_migrate_pages (migrate_prologue s) = 0"
    "is_migrating (migrate_prologue s)"
    by (simp_all add: migrate_prologue_def Let_def)
  note ok = migrate_sma_pages_unmap_ok [OF assms]
  have "ipn_list ?req i = (if i < 2048 then migrate_ipns s i else 0)"
    if "i \<notin> written (snd (migrate_sma_pages env mode reason s))" for i
    using unmap_sma_pages_frame [of env mode reason "migrate_prologue s"] that P(1) ok
    by (simp add: build_smc_req_def)
  with ok P show ?thesis by blast
qed

theorem table_is_not_reset_witness:
  "fst (unmap_sma_pages env_records MIGRATE_SYNC 0 (migrate_prologue stale_batch)) = Inr 0
   \<and> 5 \<notin> written (snd (migrate_sma_pages env_records MIGRATE_SYNC 0 stale_batch))
   \<and> (\<exists>req. smc_calls (snd (migrate_sma_pages env_records MIGRATE_SYNC 0 stale_batch))
               = [(req, False)]
         \<and> ipn_list req 5 = 0xABC)"
proof -
  have a: "fst (unmap_sma_pages env_records MIGRATE_SYNC 0 (migrate_prologue stale_batch)) = Inr 0"
    by (simp add: env_records_def stale_batch_def batch_defs run_defs prim_defs rc_defs)
  have b: "5 \<notin> written (snd (migrate_sma_pages env_records MIGRATE_SYNC 0 stale_batch))"
    by (simp add: env_records_def stale_batch_def written_def batch_defs run_defs prim_defs
          rc_defs)
  from table_is_not_reset [OF a] obtain req where
    r: "smc_calls (snd (migrate_sma_pages env_records MIGRATE_SYNC 0 stale_batch))
          = smc_calls stale_batch @ [(req, False)]"
    and i: "\<forall>i. i \<notin> written (snd (migrate_sma_pages env_records MIGRATE_SYNC 0 stale_batch)) \<longrightarrow>
               ipn_list req i = (if i < 2048 then migrate_ipns stale_batch i else 0)"
    by blast
  from i b have "ipn_list req 5 = 0xABC"
    by (simp add: stale_batch_def)
  moreover from r have "smc_calls (snd (migrate_sma_pages env_records MIGRATE_SYNC 0 stale_batch))
          = [(req, False)]"
    by (simp add: stale_batch_def batch_def smc_calls_def)
  ultimately show ?thesis using a b by blast
qed

text \<open>Claim C4 as stated (every slot not written during the batch is zero in the
  request) fails: with slot 5 left at \<open>0xABC\<close> by an earlier batch and a batch
  that stores into slot 0 only, the request carries \<open>0x77\<close> in slot 0 and
  \<open>0xABC\<close> in slot 5.\<close>

theorem stale_table_entry_counterexample:
  "map (\<lambda>(req, b). ipn_list req 0)
       (smc_calls (snd (migrate_sma_pages env_records MIGRATE_SYNC 0 stale_batch))) = [0x77]
   \<and> map (\<lambda>(req, b). ipn_list req 5)
       (smc_calls (snd (migrate_sma_pages env_records MIGRATE_SYNC 0 stale_batch))) = [0xABC]"
  by (simp add: env_records_def stale_batch_def smc_calls_def batch_defs run_defs prim_defs rc_defs)

subsection \<open>The reference count of the destination\<close>

lemma dunder_move_count_irrelevant:
  "fst (dunder_move_sma_page ob page newpage mode s)
     = fst (dunder_move_sma_page (ob\<lparr>m_new_count := 2\<rparr>) page newpage mode s)
   \<and> (snd (dunder_move_sma_page ob page newpage mode s))\<lparr>klog := []\<rparr>
     = (snd (dunder_move_sma_page (ob\<lparr>m_new_count := 2\<rparr>) page newpage mode s))\<lparr>klog := []\<rparr>"
  by (simp add: dunder_move_sma_page_def trylock_page_def unlock_page_def ev_def pr_err_def
        Let_def)

lemma move_count_irrelevant:
  "fst (move_sma_page env ob page mode reason s)
     = fst (move_sma_page env (ob\<lparr>m_new_count := 2\<rparr>) page mode reason s)
   \<and> (snd (move_sma_page env ob page mode reason s))\<lparr>klog := []\<rparr>
     = (snd (move_sma_page env (ob\<lparr>m_new_count := 2\<rparr>) page mode reason s))\<lparr>klog := []\<rparr>"
proof (cases "m_newpage ob")
  case None
  then show ?thesis by (simp add: move_sma_page_def Let_def)
next
  case (Some newpage)
  let ?s1 = "ev (Ev_get_new_page page) s"
  obtain rc s2 where D: "dunder_move_sma_page ob page newpage mode ?s1 = (rc, s2)"
    by fastforce
  obtain rc' s2' where
    D': "dunder_move_sma_page (ob\<lparr>m_new_count := 2\<rparr>) page newpage mode ?s1 = (rc', s2')"
    by fastforce
  from dunder_move_count_irrelevant [of ob page newpage mode ?s1] D D'
  have eq: "rc' = rc" "s2\<lparr>klog := []\<rparr> = s2'\<lparr>klog := []\<rparr>" by simp_all
  from Some D D' eq show ?thesis
    by (simp add: move_sma_page_def Let_def ev_def pr_err_def)
qed

lemma insert_line_ev:
  "n \<le> length (klog s) \<Longrightarrow> insert_line n e (ev e' s) = ev e' (insert_line n e s)"
  by (simp add: insert_line_def ev_def)

lemma insert_line_held: "insert_line n e (s\<lparr>held := h\<rparr>) = (insert_line n e s)\<lparr>held := h\<rparr>"
  by (simp add: insert_line_def)

lemma insert_line_here: "insert_line (length (klog s)) e s = ev e s"
  by (simp add: insert_line_def ev_def)

lemma dunder_move_exact:
  "fst (dunder_move_sma_page ob page newpage mode s)
     = fst (dunder_move_sma_page (ob\<lparr>m_new_count := 2\<rparr>) page newpage mode s)
   \<and> snd (dunder_move_sma_page ob page newpage mode s)
     = (if newpage \<notin> held s \<and> \<not> m_new_contended ob \<and> \<not> m_mapped ob \<and> m_new_count ob \<noteq> 2
        then insert_line (length (klog s) + 1) (Ev_pr_err Move_newpage_refcount)
               (snd (dunder_move_sma_page (ob\<lparr>m_new_count := 2\<rparr>) page newpage mode s))
        else snd (dunder_move_sma_page (ob\<lparr>m_new_count := 2\<rparr>) page newpage mode s))"
  by (simp add: dunder_move_sma_page_def insert_line_def
        trylock_page_def unlock_page_def ev_def pr_err_def Let_def)

lemma dunder_move_log_grows:
  "length (klog s) \<le> length (klog (snd (dunder_move_sma_page ob page newpage mode s)))
   \<and> (newpage \<notin> held s \<and> \<not> m_new_contended ob \<and> \<not> m_mapped ob \<longrightarrow>
        length (klog s) + 1 \<le> length (klog (snd (dunder_move_sma_page ob page newpage mode s))))"
  by (simp add: dunder_move_sma_page_def trylock_page_def unlock_page_def ev_def pr_err_def
        Let_def)

lemma klog_length_ev: "length (klog (ev e s)) = Suc (length (klog s))"
  by (simp add: ev_def)

lemma klog_length_pr_err: "length (klog (pr_err site s)) = Suc (length (klog s))"
  by (simp add: pr_err_def ev_def)

lemma insert_line_pr_err:
  "n \<le> length (klog s) \<Longrightarrow> insert_line n e (pr_err site s) = pr_err site (insert_line n e s)"
  by (simp add: pr_err_def insert_line_ev)

lemma move_sma_page_exact:
  "fst (move_sma_page env ob page mode reason s)
     = fst (move_sma_page env (ob\<lparr>m_new_count := 2\<rparr>) page mode reason s)
   \<and> snd (move_sma_page env ob page mode reason s)
     = (if refcount_logged ob s
        then insert_line (length (klog s) + 2) (Ev_pr_err Move_newpage_refcount)
               (snd (move_sma_page env (ob\<lparr>m_new_count := 2\<rparr>) page mode reason s))
        else snd (move_sma_page env (ob\<lparr>m_new_count := 2\<rparr>) page mode reason s))"
proof (cases "m_newpage ob")
  case None
  then show ?thesis by (simp add: move_sma_page_def refcount_logged_def Let_def)
next
  case (Some newpage)
  let ?s1 = "ev (Ev_get_new_page page) s"
  let ?ob2 = "ob\<lparr>m_new_count := 2\<rparr>"
  obtain rc s2 where D: "dunder_move_sma_page ob page newpage mode ?s1 = (rc, s2)"
    by fastforce
  obtain rc' s2' where D': "dunder_move_sma_page ?ob2 page newpage mode ?s1 = (rc', s2')"
    by fastforce
  have L1: "klog ?s1 = klog s @ [Ev_get_new_page page]" "held ?s1 = held s"
    by (simp_all add: ev_def)
  from dunder_move_exact [of ob page newpage mode ?s1] D D' L1
  have rc: "rc' = rc"
    and s2: "s2 = (if newpage \<notin> held s \<and> \<not> m_new_contended ob \<and> \<not> m_mapped ob
                       \<and> m_new_count ob \<noteq> 2
                   then insert_line (length (klog s) + 2) (Ev_pr_err Move_newpage_refcount) s2'
                   else s2')"
    by simp_all
  have lg: "refcount_logged ob s \<longleftrightarrow>
              newpage \<notin> held s \<and> \<not> m_new_contended ob \<and> \<not> m_mapped ob \<and> m_new_count ob \<noteq> 2"
    using Some by (simp add: refcount_logged_def)
  show ?thesis
  proof (cases "refcount_logged ob s")
    case False
    with lg s2 have "s2 = s2'" by auto
    with Some D D' rc False show ?thesis by (simp add: move_sma_page_def Let_def)
  next
    case True
    with lg s2 have e: "s2 = insert_line (length (klog s) + 2) (Ev_pr_err Move_newpage_refcount) s2'"
      by simp
    from dunder_move_log_grows [of ?s1 ?ob2 page newpage mode] D' L1 True lg
    have n: "length (klog s) + 2 \<le> length (klog s2')" by simp
    from Some D D' rc e n True show ?thesis
      by (simp add: move_sma_page_def Let_def insert_line_ev insert_line_pr_err
            klog_length_ev klog_length_pr_err)
  qed
qed

lemma without_insert_line [simp]:
  "without_refcount_lines (insert_line n (Ev_pr_err Move_newpage_refcount) s)
     = without_refcount_lines s"
proof -
  have "filter P (take n xs) @ filter P (drop n xs) = filter P xs" for P and xs :: "event list"
    by (metis append_take_drop_id filter_append)
  then show ?thesis
    by (simp add: without_refcount_lines_def insert_line_def)
qed

text \<open>The per-page move does not read the log: it appends to it.\<close>

lemma move_sma_page_klog:
  "move_sma_page env ob page mode reason (s\<lparr>klog := l\<rparr>)
     = (fst (move_sma_page env ob page mode reason s),
        (snd (move_sma_page env ob page mode reason s))
          \<lparr>klog := l @ drop (length (klog s))
                         (klog (snd (move_sma_page env ob page mode reason s)))\<rparr>)"
  by (cases "m_newpage ob")
     (simp_all add: move_sma_page_def dunder_move_sma_page_def trylock_page_def unlock_page_def
        ev_def pr_err_def Let_def)

lemma without_same_fields:
  "without_refcount_lines s = without_refcount_lines t \<Longrightarrow> t = s\<lparr>klog := klog t\<rparr>"
proof -
  assume "without_refcount_lines s = without_refcount_lines t"
  then have "(without_refcount_lines s)\<lparr>klog := klog t\<rparr>
               = (without_refcount_lines t)\<lparr>klog := klog t\<rparr>"
    by simp
  then show ?thesis by (simp add: without_refcount_lines_def)
qed

lemma without_same_lines:
  "without_refcount_lines s = without_refcount_lines t \<Longrightarrow>
   filter (\<lambda>e. e \<noteq> Ev_pr_err Move_newpage_refcount) (klog s)
     = filter (\<lambda>e. e \<noteq> Ev_pr_err Move_newpage_refcount) (klog t)"
proof -
  assume "without_refcount_lines s = without_refcount_lines t"
  then have "klog (without_refcount_lines s) = klog (without_refcount_lines t)"
    by simp
  then show ?thesis by (simp add: without_refcount_lines_def)
qed

lemma move_sma_page_log_prefix:
  "klog (snd (move_sma_page env ob page mode reason s))
     = klog s @ drop (length (klog s)) (klog (snd (move_sma_page env ob page mode reason s)))"
proof -
  have "snd (move_sma_page env ob page mode reason (s\<lparr>klog := klog s\<rparr>))
          = (snd (move_sma_page env ob page mode reason s))
              \<lparr>klog := klog s @ drop (length (klog s))
                         (klog (snd (move_sma_page env ob page mode reason s)))\<rparr>"
    by (subst move_sma_page_klog) simp
  then have "klog (snd (move_sma_page env ob page mode reason s))
          = klog ((snd (move_sma_page env ob page mode reason s))
              \<lparr>klog := klog s @ drop (length (klog s))
                         (klog (snd (move_sma_page env ob page mode reason s)))\<rparr>)"
    by simp
  then show ?thesis by simp
qed

lemma move_sma_page_sim:
  assumes "without_refcount_lines s = without_refcount_lines t"
  shows "fst (move_sma_page env ob page mode reason s)
           = fst (move_sma_page env (ob\<lparr>m_new_count := 2\<rparr>) page mode reason t)
         \<and> without_refcount_lines (snd (move_sma_page env ob page mode reason s))
           = without_refcount_lines
               (snd (move_sma_page env (ob\<lparr>m_new_count := 2\<rparr>) page mode reason t))"
proof -
  let ?ob2 = "ob\<lparr>m_new_count := 2\<rparr>"
  let ?B = "snd (move_sma_page env ?ob2 page mode reason s)"
  let ?d = "drop (length (klog s)) (klog ?B)"
  note t = without_same_fields [OF assms]
  note f = without_same_lines [OF assms]
  have T: "move_sma_page env ?ob2 page mode reason t
             = (fst (move_sma_page env ?ob2 page mode reason s), ?B\<lparr>klog := klog t @ ?d\<rparr>)"
    by (subst t) (rule move_sma_page_klog)
  have A: "fst (move_sma_page env ob page mode reason s)
             = fst (move_sma_page env ?ob2 page mode reason s)"
    and W: "without_refcount_lines (snd (move_sma_page env ob page mode reason s))
             = without_refcount_lines ?B"
    using move_sma_page_exact [of env ob page mode reason s] by simp_all
  have P: "klog ?B = klog s @ ?d"
    by (rule move_sma_page_log_prefix)
  have "without_refcount_lines ?B = without_refcount_lines (?B\<lparr>klog := klog t @ ?d\<rparr>)"
    unfolding without_refcount_lines_def
    by (subst P) (simp add: f)
  with T A W show ?thesis by simp
qed

lemma move_sma_page_counts_two [simp]:
  "move_sma_page (counts_two env) ob page mode reason s = move_sma_page env ob page mode reason s"
proof -
  have h: "e_has_put_new_page (counts_two env) = e_has_put_new_page env"
    by (simp add: counts_two_def)
  show ?thesis unfolding move_sma_page_def h ..
qed

lemma e_move_counts_two [simp]:
  "e_move (counts_two env) p k = (e_move env p k)\<lparr>m_new_count := 2\<rparr>"
  by (simp add: counts_two_def)

lemma without_unmapped_to_moved:
  "without_refcount_lines s = without_refcount_lines t \<Longrightarrow>
   without_refcount_lines (unmapped_to_moved q s) = without_refcount_lines (unmapped_to_moved q t)"
proof -
  assume a: "without_refcount_lines s = without_refcount_lines t"
  have c: "without_refcount_lines (unmapped_to_moved q x)
             = unmapped_to_moved q (without_refcount_lines x)" for x
    by (simp add: without_refcount_lines_def unmapped_to_moved_def)
  show ?thesis by (simp add: c a)
qed

lemma without_pr_err:
  "without_refcount_lines s = without_refcount_lines t \<Longrightarrow>
   without_refcount_lines (pr_err site s) = without_refcount_lines (pr_err site t)"
proof -
  assume a: "without_refcount_lines s = without_refcount_lines t"
  have c: "without_refcount_lines (pr_err site x)
             = (if site = Move_newpage_refcount then without_refcount_lines x
                else pr_err site (without_refcount_lines x))" for x
    by (simp add: without_refcount_lines_def pr_err_def ev_def)
  show ?thesis by (simp add: c a)
qed

lemma move_entries_sim:
  "without_refcount_lines s = without_refcount_lines t \<Longrightarrow>
   fst (move_entries env mode reason pass xs lv s)
     = fst (move_entries (counts_two env) mode reason pass xs lv t)
   \<and> without_refcount_lines (snd (move_entries env mode reason pass xs lv s))
     = without_refcount_lines (snd (move_entries (counts_two env) mode reason pass xs lv t))"
proof (induction xs arbitrary: lv s t)
  case Nil
  then show ?case by simp
next
  case (Cons q xs)
  obtain r s1 where U: "move_sma_page env (e_move env q pass) q mode reason s = (r, s1)"
    by fastforce
  obtain r' t1 where
    V: "move_sma_page env ((e_move env q pass)\<lparr>m_new_count := 2\<rparr>) q mode reason t = (r', t1)"
    by fastforce
  from move_sma_page_sim [OF Cons.prems, of env "e_move env q pass" q mode reason] U V
  have r: "r' = r" and w: "without_refcount_lines s1 = without_refcount_lines t1"
    by simp_all
  show ?case
  proof (cases r)
    case (Inl f)
    with U V r w show ?thesis by simp
  next
    case (Inr rc)
    note i1 = Cons.IH [OF w]
    note i2 = Cons.IH [OF without_unmapped_to_moved [OF w]]
    note i3 = Cons.IH [OF without_pr_err [OF w]]
    show ?thesis
      using U V r Inr i1 i2 i3 by simp
  qed
qed

lemma unmapped_head_without:
  "without_refcount_lines s = without_refcount_lines t \<Longrightarrow> unmapped_head s = unmapped_head t"
proof -
  assume "without_refcount_lines s = without_refcount_lines t"
  then have "unmapped_head (without_refcount_lines s) = unmapped_head (without_refcount_lines t)"
    by simp
  then show ?thesis by (simp add: without_refcount_lines_def)
qed

lemma move_passes_sim:
  "without_refcount_lines s = without_refcount_lines t \<Longrightarrow>
   fst (move_passes env mode reason pass lv s)
     = fst (move_passes (counts_two env) mode reason pass lv t)
   \<and> without_refcount_lines (snd (move_passes env mode reason pass lv s))
     = without_refcount_lines (snd (move_passes (counts_two env) mode reason pass lv t))"
proof (induction env mode reason pass lv s arbitrary: t rule: move_passes.induct)
  case (1 env mode reason pass lv s)
  show ?case
  proof (cases "pass < 10 \<and> l_retry lv \<noteq> 0")
    case False
    with "1.prems" show ?thesis
      by (subst move_passes.simps, subst (3) move_passes.simps,
          subst (2) move_passes.simps, subst (4) move_passes.simps) auto
  next
    case True
    note u = unmapped_head_without [OF "1.prems"]
    obtain r s1 where
      E: "move_entries env mode reason pass (unmapped_head s) (lv\<lparr>l_retry := 0\<rparr>) s = (r, s1)"
      by fastforce
    obtain r' t1 where
      F: "move_entries (counts_two env) mode reason pass (unmapped_head t) (lv\<lparr>l_retry := 0\<rparr>) t
            = (r', t1)"
      by fastforce
    from move_entries_sim [OF "1.prems", of env mode reason pass "unmapped_head s"
        "lv\<lparr>l_retry := 0\<rparr>"] E F u
    have r: "r' = r" and w: "without_refcount_lines s1 = without_refcount_lines t1"
      by simp_all
    have L: "move_passes env mode reason pass lv s
               = (case r of Inl f \<Rightarrow> (Inl f, s1)
                  | Inr lv1 \<Rightarrow> move_passes env mode reason (pass + 1) lv1 s1)"
      using True E by (subst move_passes.simps) (simp split: sum.splits)
    have R: "move_passes (counts_two env) mode reason pass lv t
               = (case r of Inl f \<Rightarrow> (Inl f, t1)
                  | Inr lv1 \<Rightarrow> move_passes (counts_two env) mode reason (pass + 1) lv1 t1)"
      using True F r by (subst move_passes.simps) (simp split: sum.splits)
    show ?thesis
    proof (cases r)
      case (Inl f)
      with L R w show ?thesis by simp
    next
      case (Inr lv1)
      from "1.IH" [OF True E [symmetric] Inr w] L R Inr show ?thesis by simp
    qed
  qed
qed

lemma move_sma_pages_sim:
  "without_refcount_lines s = without_refcount_lines t \<Longrightarrow>
   fst (move_sma_pages env mode reason s) = fst (move_sma_pages (counts_two env) mode reason t)
   \<and> without_refcount_lines (snd (move_sma_pages env mode reason s))
     = without_refcount_lines (snd (move_sma_pages (counts_two env) mode reason t))"
proof -
  let ?lv = "\<lparr>l_rc = MIGRATEPAGE_SUCCESS, l_retry = 1, l_nr_succeeded = 0\<rparr>"
  assume "without_refcount_lines s = without_refcount_lines t"
  from move_passes_sim [OF this, of env mode reason 0 ?lv]
  show ?thesis
    by (cases "move_passes env mode reason 0 ?lv s";
        cases "move_passes (counts_two env) mode reason 0 ?lv t")
       (auto simp: move_sma_pages_def split: sum.splits)
qed

text \<open>Nothing but the move phase reads the reference count.\<close>

lemma unmap_sma_page_counts_two [simp]:
  "unmap_sma_page (counts_two env) ob q force mode reason s
     = unmap_sma_page env ob q force mode reason s"
proof -
  have h: "e_debug_vm (counts_two env) = e_debug_vm env"
    by (simp add: counts_two_def)
  show ?thesis
    unfolding unmap_sma_page_def dunder_unmap_sma_page_def unmap_locked_def h ..
qed

lemma e_unmap_counts_two [simp]: "e_unmap (counts_two env) = e_unmap env"
  by (simp add: counts_two_def)

lemma unmap_entries_counts_two [simp]:
  "unmap_entries (counts_two env) mode reason pass xs lv s
     = unmap_entries env mode reason pass xs lv s"
proof (induction xs arbitrary: lv s)
  case Nil
  show ?case by simp
next
  case (Cons q xs)
  show ?case
    by (simp only: unmap_entries.simps unmap_sma_page_counts_two e_unmap_counts_two Cons.IH)
qed

lemma unmap_passes_counts_two [simp]:
  "unmap_passes (counts_two env) mode reason pass lv s = unmap_passes env mode reason pass lv s"
proof (induction env mode reason pass lv s rule: unmap_passes.induct)
  case (1 env mode reason pass lv s)
  show ?case
  proof (cases "pass < 10 \<and> l_retry lv \<noteq> 0")
    case False
    then show ?thesis
      by (subst unmap_passes.simps, subst (2) unmap_passes.simps) auto
  next
    case True
    obtain r s1 where
      E: "unmap_entries env mode reason pass (from_head s) (lv\<lparr>l_retry := 0\<rparr>) s = (r, s1)"
      by fastforce
    show ?thesis
    proof (cases r)
      case (Inl f)
      with True E show ?thesis
        by (subst unmap_passes.simps, subst (2) unmap_passes.simps) simp
    next
      case (Inr lv1)
      from "1.IH" [OF True E [symmetric] Inr] True E Inr show ?thesis
        by (subst unmap_passes.simps, subst (2) unmap_passes.simps) simp
    qed
  qed
qed

lemma unmap_sma_pages_counts_two [simp]:
  "unmap_sma_pages (counts_two env) mode reason s = unmap_sma_pages env mode reason s"
  by (simp add: unmap_sma_pages_def)

lemma without_migrate_out:
  "without_refcount_lines s = without_refcount_lines t \<Longrightarrow>
   fst (migrate_out sw rc s) = fst (migrate_out sw rc t)
   \<and> without_refcount_lines (snd (migrate_out sw rc s))
     = without_refcount_lines (snd (migrate_out sw rc t))"
proof -
  assume a: "without_refcount_lines s = without_refcount_lines t"
  have c: "without_refcount_lines (snd (migrate_out sw rc x))
             = snd (migrate_out sw rc (without_refcount_lines x))" for x
    by (simp add: without_refcount_lines_def migrate_out_def)
  show ?thesis by (simp add: c a) (simp add: migrate_out_def)
qed

lemma without_end_of_scope:
  "without_refcount_lines s = without_refcount_lines t \<Longrightarrow>
   without_refcount_lines (end_of_scope s) = without_refcount_lines (end_of_scope t)"
proof -
  assume a: "without_refcount_lines s = without_refcount_lines t"
  have c: "without_refcount_lines (end_of_scope x) = end_of_scope (without_refcount_lines x)"
    for x
    by (simp add: without_refcount_lines_def end_of_scope_def)
  show ?thesis by (simp add: c a)
qed

lemma migrate_sma_pages_body_sim:
  "fst (migrate_sma_pages_body env mode reason s)
     = fst (migrate_sma_pages_body (counts_two env) mode reason s)
   \<and> without_refcount_lines (snd (migrate_sma_pages_body env mode reason s))
     = without_refcount_lines (snd (migrate_sma_pages_body (counts_two env) mode reason s))"
proof -
  have P: "src_base_pfn_of (counts_two env) s = src_base_pfn_of env s"
    "e_dst_base_pfn (counts_two env) = e_dst_base_pfn env"
    by (simp_all add: src_base_pfn_of_def counts_two_def split: list.splits)
  obtain r1 s1 where U: "unmap_sma_pages env mode reason (migrate_prologue s) = (r1, s1)"
    by fastforce
  let ?s2 = "issue_smc (src_base_pfn_of env s) (e_dst_base_pfn env) s1"
  obtain r2 s2 where M: "move_sma_pages env MIGRATE_SYNC_NO_COPY reason ?s2 = (r2, s2)"
    by fastforce
  obtain r3 s3 where
    N: "move_sma_pages (counts_two env) MIGRATE_SYNC_NO_COPY reason ?s2 = (r3, s3)"
    by fastforce
  from move_sma_pages_sim [of ?s2 ?s2 env MIGRATE_SYNC_NO_COPY reason] M N
  have r: "r3 = r2" and w: "without_refcount_lines s2 = without_refcount_lines s3"
    by simp_all
  note o1 = without_migrate_out [OF w]
  note o2 = without_migrate_out [OF without_pr_err [OF w]]
  show ?thesis
  proof (cases r1)
    case (Inl f)
    with U show ?thesis by (simp add: migrate_sma_pages_body_def P)
  next
    case (Inr rc)
    show ?thesis
    proof (cases "rc = 0")
      case False
      with U Inr show ?thesis by (simp add: migrate_sma_pages_body_def P)
    next
      case True
      show ?thesis
      proof (cases r2)
        case (Inl f)
        with U M N r w Inr True show ?thesis by (simp add: migrate_sma_pages_body_def P)
      next
        case (Inr rc2)
        with U M N r w \<open>r1 = Inr rc\<close> True o1 o2 show ?thesis
          by (cases "rc2 = 0") (simp_all add: migrate_sma_pages_body_def P Let_def)
      qed
    qed
  qed
qed

lemma migrate_sma_pages_sim:
  "fst (migrate_sma_pages env mode reason s) = fst (migrate_sma_pages (counts_two env) mode reason s)
   \<and> without_refcount_lines (snd (migrate_sma_pages env mode reason s))
     = without_refcount_lines (snd (migrate_sma_pages (counts_two env) mode reason s))"
proof -
  obtain r1 s1 where A: "migrate_sma_pages_body env mode reason s = (r1, s1)"
    by fastforce
  obtain r2 s2 where B: "migrate_sma_pages_body (counts_two env) mode reason s = (r2, s2)"
    by fastforce
  from migrate_sma_pages_body_sim [of env mode reason s] A B
  have r: "r2 = r1" and w: "without_refcount_lines s1 = without_refcount_lines s2"
    by simp_all
  from A B r w without_end_of_scope [OF w] show ?thesis
    by (cases r1) (simp_all add: migrate_sma_pages_def)
qed

text \<open>
  Claim C5, amended. When \<^verbatim>\<open>page_count(newpage)\<close> is not 2 after
  \<^verbatim>\<open>move_to_new_page\<close>, \<^verbatim>\<open>__move_sma_page\<close> logs an error and nothing else
  changes. The code \<^verbatim>\<open>move_sma_page\<close> returns is that of a count of 2, and the
  state it leaves is that of a count of 2 with the error line put into the log
  after the call of \<^verbatim>\<open>move_to_new_page\<close>: same locks, lists and globals, same
  calls in the same order. With the destination locked and the page unmapped,
  \<^verbatim>\<open>__move_sma_page\<close> returns what \<^verbatim>\<open>move_to_new_page\<close> returned, success
  included. The move phase and \<^verbatim>\<open>migrate_sma_pages\<close> as a whole return the
  code and leave the state they would with every count read as 2, but for the
  error lines.
\<close>

theorem refcount_mismatch_is_only_logged:
  "fst (move_sma_page env ob page mode reason s)
     = fst (move_sma_page env (ob\<lparr>m_new_count := 2\<rparr>) page mode reason s)
   \<and> snd (move_sma_page env ob page mode reason s)
     = (if refcount_logged ob s
        then insert_line (length (klog s) + 2) (Ev_pr_err Move_newpage_refcount)
               (snd (move_sma_page env (ob\<lparr>m_new_count := 2\<rparr>) page mode reason s))
        else snd (move_sma_page env (ob\<lparr>m_new_count := 2\<rparr>) page mode reason s))
   \<and> (snd (move_sma_page env ob page mode reason s))\<lparr>klog := []\<rparr>
     = (snd (move_sma_page env (ob\<lparr>m_new_count := 2\<rparr>) page mode reason s))\<lparr>klog := []\<rparr>
   \<and> (newpage \<notin> held s \<and> \<not> m_new_contended ob \<and> \<not> m_mapped ob \<and> m_new_count ob \<noteq> 2 \<longrightarrow>
        fst (dunder_move_sma_page ob page newpage mode s) = m_move_rc ob \<and>
        Ev_pr_err Move_newpage_refcount
          \<in> set (klog (snd (dunder_move_sma_page ob page newpage mode s))))
   \<and> fst (move_sma_pages env mode reason s) = fst (move_sma_pages (counts_two env) mode reason s)
   \<and> without_refcount_lines (snd (move_sma_pages env mode reason s))
     = without_refcount_lines (snd (move_sma_pages (counts_two env) mode reason s))
   \<and> fst (migrate_sma_pages_body env mode reason s)
     = fst (migrate_sma_pages_body (counts_two env) mode reason s)
   \<and> without_refcount_lines (snd (migrate_sma_pages_body env mode reason s))
     = without_refcount_lines (snd (migrate_sma_pages_body (counts_two env) mode reason s))
   \<and> fst (migrate_sma_pages env mode reason s)
     = fst (migrate_sma_pages (counts_two env) mode reason s)
   \<and> without_refcount_lines (snd (migrate_sma_pages env mode reason s))
     = without_refcount_lines (snd (migrate_sma_pages (counts_two env) mode reason s))"
proof -
  have d: "newpage \<notin> held s \<and> \<not> m_new_contended ob \<and> \<not> m_mapped ob \<and> m_new_count ob \<noteq> 2 \<longrightarrow>
        fst (dunder_move_sma_page ob page newpage mode s) = m_move_rc ob \<and>
        Ev_pr_err Move_newpage_refcount
          \<in> set (klog (snd (dunder_move_sma_page ob page newpage mode s)))"
    by (auto simp: dunder_move_sma_page_def trylock_page_def unlock_page_def ev_def pr_err_def
          Let_def)
  from d move_sma_page_exact [of env ob page mode reason s]
    move_count_irrelevant [of env ob page mode reason s]
    move_sma_pages_sim [of s s env mode reason]
    migrate_sma_pages_body_sim [of env mode reason s]
    migrate_sma_pages_sim [of env mode reason s]
  show ?thesis by blast
qed

theorem refcount_mismatch_is_only_logged_witness:
  "1001 \<notin> held (batch [1])
   \<and> fst (dunder_move_sma_page ((ok_move 1)\<lparr>m_new_count := 3\<rparr>) 1 1001 MIGRATE_SYNC_NO_COPY
            (batch [1])) = MIGRATEPAGE_SUCCESS
   \<and> Ev_pr_err Move_newpage_refcount
        \<in> set (klog (snd (dunder_move_sma_page ((ok_move 1)\<lparr>m_new_count := 3\<rparr>) 1 1001
                             MIGRATE_SYNC_NO_COPY (batch [1]))))
   \<and> refcount_logged ((ok_move 1)\<lparr>m_new_count := 3\<rparr>) (batch [1])
   \<and> snd (move_sma_page env_quiet ((ok_move 1)\<lparr>m_new_count := 3\<rparr>) 1 MIGRATE_SYNC_NO_COPY 0
            (batch [1]))
     = insert_line 2 (Ev_pr_err Move_newpage_refcount)
         (snd (move_sma_page env_quiet (ok_move 1) 1 MIGRATE_SYNC_NO_COPY 0 (batch [1])))"
proof -
  let ?ob = "(ok_move 1)\<lparr>m_new_count := 3\<rparr>"
  note t = refcount_mismatch_is_only_logged
             [of env_quiet ?ob 1 MIGRATE_SYNC_NO_COPY 0 "batch [1]" 1001]
  have h: "1001 \<notin> held (batch [1]) \<and> \<not> m_new_contended ?ob \<and> \<not> m_mapped ?ob
             \<and> m_new_count ?ob \<noteq> 2"
    by (simp add: batch_defs)
  have l: "refcount_logged ?ob (batch [1])"
    by (simp add: refcount_logged_def batch_defs)
  have k: "length (klog (batch [1])) + 2 = 2"
    by (simp add: batch_def)
  have o: "?ob\<lparr>m_new_count := 2\<rparr> = ok_move 1"
    by (simp add: ok_move_def)
  have m: "m_move_rc ?ob = MIGRATEPAGE_SUCCESS"
    by (simp add: ok_move_def)
  from t h have a: "fst (dunder_move_sma_page ?ob 1 1001 MIGRATE_SYNC_NO_COPY (batch [1]))
                      = m_move_rc ?ob"
    and b: "Ev_pr_err Move_newpage_refcount
              \<in> set (klog (snd (dunder_move_sma_page ?ob 1 1001 MIGRATE_SYNC_NO_COPY
                                   (batch [1]))))"
    by blast+
  from t l have "snd (move_sma_page env_quiet ?ob 1 MIGRATE_SYNC_NO_COPY 0 (batch [1]))
      = insert_line (length (klog (batch [1])) + 2) (Ev_pr_err Move_newpage_refcount)
          (snd (move_sma_page env_quiet (?ob\<lparr>m_new_count := 2\<rparr>) 1 MIGRATE_SYNC_NO_COPY 0
                  (batch [1])))"
    by presburger
  then have c: "snd (move_sma_page env_quiet ?ob 1 MIGRATE_SYNC_NO_COPY 0 (batch [1]))
      = insert_line 2 (Ev_pr_err Move_newpage_refcount)
          (snd (move_sma_page env_quiet (ok_move 1) 1 MIGRATE_SYNC_NO_COPY 0 (batch [1])))"
    unfolding k o .
  from h a b l c m show ?thesis by presburger
qed

text \<open>Claim C5 as stated (a count other than 2 is fatal and the page does not
  proceed as a success) fails: with a count of 3 the batch of one page returns
  \<^verbatim>\<open>MIGRATEPAGE_SUCCESS\<close>, the page is on \<^verbatim>\<open>moved_head\<close> at the return
  statement, and the mismatch was logged once.\<close>

theorem bad_refcount_counterexample:
  "fst (migrate_sma_pages env_refcount MIGRATE_SYNC 0 (batch [1])) = Inr MIGRATEPAGE_SUCCESS
   \<and> moved_head (snd (migrate_sma_pages_body env_refcount MIGRATE_SYNC 0 (batch [1]))) = [1]
   \<and> count_list (klog (snd (migrate_sma_pages env_refcount MIGRATE_SYNC 0 (batch [1]))))
        (Ev_pr_err Move_newpage_refcount) = 1"
  by (simp add: env_refcount_def batch_defs run_defs prim_defs rc_defs)

subsection \<open>Calls of the supply and release callbacks\<close>

lemma gets_ev [simp]:
  "gets p (ev e s) = gets p s + (if e = Ev_get_new_page p then 1 else 0)"
  by (simp add: gets_def ev_def)

lemma releases_ev [simp]:
  "releases p (ev e s) = releases p s + (if release_of p e then 1 else 0)"
  by (simp add: releases_def ev_def)

lemma gets_pr_err [simp]: "gets p (pr_err site s) = gets p s"
  by (simp add: pr_err_def)

lemma releases_pr_err [simp]: "releases p (pr_err site s) = releases p s"
  by (simp add: pr_err_def)

lemma gets_held [simp]: "gets p (s\<lparr>held := h\<rparr>) = gets p s"
  by (simp add: gets_def)

lemma releases_held [simp]: "releases p (s\<lparr>held := h\<rparr>) = releases p s"
  by (simp add: releases_def)

lemma dunder_move_counts:
  "gets p (snd (dunder_move_sma_page ob page newpage mode s)) = gets p s
   \<and> releases p (snd (dunder_move_sma_page ob page newpage mode s)) = releases p s"
  by (simp add: dunder_move_sma_page_def trylock_page_def unlock_page_def Let_def)

lemma move_sma_page_counts:
  "gets p (snd (move_sma_page env ob page mode reason s))
     = gets p s + (if p = page then 1 else 0)
   \<and> releases p (snd (move_sma_page env ob page mode reason s))
     = releases p s
       + (if p = page \<and> fst (move_sma_page env ob page mode reason s) = Inr (- EAGAIN)
          then 1 else 0)"
proof (cases "m_newpage ob")
  case None
  then show ?thesis by (simp add: move_sma_page_def Let_def rc_defs)
next
  case (Some newpage)
  let ?s1 = "ev (Ev_get_new_page page) s"
  obtain rc s2 where D: "dunder_move_sma_page ob page newpage mode ?s1 = (rc, s2)"
    by fastforce
  from dunder_move_counts [of p ob page newpage mode ?s1] D
  have "gets p s2 = gets p s + (if p = page then 1 else 0)" "releases p s2 = releases p s"
    by auto
  with Some D show ?thesis
    by (auto simp: move_sma_page_def Let_def rc_defs)
qed

lemma gets_unmapped_to_moved [simp]: "gets p (unmapped_to_moved q s) = gets p s"
  by (simp add: gets_def unmapped_to_moved_def)

lemma move_entries_gets:
  "gets p s \<le> gets p (snd (move_entries env mode reason pass xs lv s))
   \<and> gets p (snd (move_entries env mode reason pass xs lv s)) \<le> gets p s + count_list xs p
   \<and> (\<forall>lv'. fst (move_entries env mode reason pass xs lv s) = Inr lv' \<longrightarrow>
         gets p (snd (move_entries env mode reason pass xs lv s)) = gets p s + count_list xs p)"
proof (induction xs arbitrary: lv s)
  case Nil
  then show ?case by simp
next
  case (Cons q xs)
  obtain r s1 where U: "move_sma_page env (e_move env q pass) q mode reason s = (r, s1)"
    by fastforce
  from move_sma_page_counts [of p env "e_move env q pass" q mode reason s] U
  have G: "gets p s1 = gets p s + (if p = q then 1 else 0)" by simp
  show ?case
  proof (cases r)
    case (Inl f)
    with U G show ?thesis by simp
  next
    case (Inr rc)
    have step: "gets p s \<le> gets p (snd (move_entries env mode reason pass xs lv' s2))
      \<and> gets p (snd (move_entries env mode reason pass xs lv' s2))
           \<le> gets p s + count_list (q # xs) p
      \<and> (\<forall>lv''. fst (move_entries env mode reason pass xs lv' s2) = Inr lv'' \<longrightarrow>
            gets p (snd (move_entries env mode reason pass xs lv' s2))
              = gets p s + count_list (q # xs) p)"
      if "gets p s2 = gets p s1" for lv' s2
      using Cons.IH [of s2 lv'] that G by auto
    have h1: "gets p s1 = gets p s1" by simp
    have h2: "gets p (pr_err Move_invalid_rc s1) = gets p s1" by simp
    have h3: "gets p (unmapped_to_moved q s1) = gets p s1" by simp
    consider "rc = - EAGAIN" | "rc \<noteq> - EAGAIN" "rc = MIGRATEPAGE_SUCCESS"
      | "rc \<noteq> - EAGAIN" "rc \<noteq> MIGRATEPAGE_SUCCESS" by blast
    then show ?thesis
    proof cases
      case 1
      with U Inr have "move_entries env mode reason pass (q # xs) lv s
          = move_entries env mode reason pass xs (lv\<lparr>l_rc := rc, l_retry := l_retry lv + 1\<rparr>) s1"
        by simp
      then show ?thesis using step [OF h1] by presburger
    next
      case 2
      with U Inr have "move_entries env mode reason pass (q # xs) lv s
          = move_entries env mode reason pass xs
              (lv\<lparr>l_rc := rc, l_nr_succeeded := l_nr_succeeded lv + 1\<rparr>) (unmapped_to_moved q s1)"
        by simp
      then show ?thesis using step [OF h3] by presburger
    next
      case 3
      with U Inr have "move_entries env mode reason pass (q # xs) lv s
          = move_entries env mode reason pass xs (lv\<lparr>l_rc := rc\<rparr>) (pr_err Move_invalid_rc s1)"
        by simp
      then show ?thesis using step [OF h2] by presburger
    qed
  qed
qed

lemma move_entries_distinct:
  "distinct (unmapped_head s) \<Longrightarrow>
   distinct (unmapped_head (snd (move_entries env mode reason pass xs lv s)))"
proof -
  let ?R = "\<lambda>s s'. distinct (unmapped_head s) \<longrightarrow> distinct (unmapped_head s')"
  have "?R s (snd (move_entries env mode reason pass xs lv s))"
  proof (rule move_entries_rel [of ?R])
    show "?R s (snd (move_sma_page env (e_move env q k) q mode reason s))" for q k s
      using move_sma_page_lists [of env "e_move env q k" q mode reason s]
      by (cases "move_sma_page env (e_move env q k) q mode reason s") simp
    show "?R s (unmapped_to_moved q s)" for q s
      by (simp add: unmapped_to_moved_def)
    show "?R s (pr_err site s)" for site s
      by simp
  qed auto
  then show "distinct (unmapped_head s) \<Longrightarrow> ?thesis" by blast
qed

lemma count_list_distinct: "distinct xs \<Longrightarrow> count_list xs p = (if p \<in> set xs then 1 else 0)"
  by (induction xs) auto

lemma move_passes_gets:
  "distinct (unmapped_head s) \<Longrightarrow>
   gets p s \<le> gets p (snd (move_passes env mode reason pass lv s))
   \<and> gets p (snd (move_passes env mode reason pass lv s)) \<le> gets p s + (10 - pass)"
proof (induction env mode reason pass lv s rule: move_passes.induct)
  case (1 env mode reason pass lv s)
  show ?case
  proof (cases "pass < 10 \<and> l_retry lv \<noteq> 0")
    case False
    then show ?thesis by (subst (1 2) move_passes.simps) auto
  next
    case True
    obtain r s1 where
      E: "move_entries env mode reason pass (unmapped_head s) (lv\<lparr>l_retry := 0\<rparr>) s = (r, s1)"
      by fastforce
    from move_entries_gets [of p s env mode reason pass "unmapped_head s" "lv\<lparr>l_retry := 0\<rparr>"] E
      count_list_distinct [OF "1.prems", of p]
    have G: "gets p s \<le> gets p s1" "gets p s1 \<le> gets p s + 1"
      by (auto split: if_splits)
    from move_entries_distinct [OF "1.prems", of env mode reason pass "unmapped_head s"
        "lv\<lparr>l_retry := 0\<rparr>"] E
    have D: "distinct (unmapped_head s1)" by simp
    show ?thesis
    proof (cases r)
      case (Inl f)
      with True E G show ?thesis by (subst (1 2) move_passes.simps) auto
    next
      case (Inr lv1)
      from "1.IH" [OF True E [symmetric] Inr D] G True
      have "gets p s \<le> gets p (snd (move_passes env mode reason (pass + 1) lv1 s1))
        \<and> gets p (snd (move_passes env mode reason (pass + 1) lv1 s1)) \<le> gets p s + (10 - pass)"
        by auto
      with True E Inr show ?thesis by (subst (1 2) move_passes.simps) simp
    qed
  qed
qed

lemma move_sma_pages_gets:
  assumes "distinct (unmapped_head s)" and "p \<in> set (unmapped_head s)"
    and "fst (move_sma_pages env mode reason s) = Inr rc"
  shows "gets p s + 1 \<le> gets p (snd (move_sma_pages env mode reason s))
         \<and> gets p (snd (move_sma_pages env mode reason s)) \<le> gets p s + 10"
proof -
  let ?lv = "\<lparr>l_rc = MIGRATEPAGE_SUCCESS, l_retry = 1, l_nr_succeeded = 0\<rparr>"
  obtain r s1 where
    E: "move_entries env mode reason 0 (unmapped_head s) (?lv\<lparr>l_retry := 0\<rparr>) s = (r, s1)"
    by fastforce
  have P: "move_passes env mode reason 0 ?lv s =
             (case r of Inl f \<Rightarrow> (Inl f, s1) | Inr lv1 \<Rightarrow> move_passes env mode reason 1 lv1 s1)"
    using E by (subst move_passes.simps) (simp split: sum.splits)
  from assms(3) obtain lv1 where r: "r = Inr lv1"
    using P by (cases r) (auto simp: move_sma_pages_def split: prod.splits sum.splits)
  from move_entries_gets [of p s env mode reason 0 "unmapped_head s" "?lv\<lparr>l_retry := 0\<rparr>"] E r
    count_list_distinct [OF assms(1), of p] assms(2)
  have G: "gets p s1 = gets p s + 1" by simp
  from move_entries_distinct [OF assms(1), of env mode reason 0 "unmapped_head s"
      "?lv\<lparr>l_retry := 0\<rparr>"] E
  have D: "distinct (unmapped_head s1)" by simp
  from move_passes_gets [OF D, of p env mode reason 1 lv1] G
  have "gets p s + 1 \<le> gets p (snd (move_passes env mode reason 1 lv1 s1))
        \<and> gets p (snd (move_passes env mode reason 1 lv1 s1)) \<le> gets p s + 10"
    by simp
  with P r have "gets p s + 1 \<le> gets p (snd (move_passes env mode reason 0 ?lv s))
        \<and> gets p (snd (move_passes env mode reason 0 ?lv s)) \<le> gets p s + 10"
    by simp
  then show ?thesis
    by (auto simp: move_sma_pages_def split: prod.splits sum.splits)
qed

text \<open>
  Claim C7, amended. Each call of \<^verbatim>\<open>move_sma_page\<close> calls \<^verbatim>\<open>get_new_page\<close> once
  for its page, and gives the destination back once exactly when it returns
  \<^verbatim>\<open>-EAGAIN\<close>. A pass that runs through calls \<^verbatim>\<open>get_new_page\<close> once for every
  entry of \<^verbatim>\<open>unmapped_head\<close>. So over a move phase that returns, a page of the
  (duplicate-free) unmapped list is supplied a destination at least once and at
  most ten times: once for every pass that finds it on the list.
\<close>

theorem supply_once_per_attempt:
  "gets page (snd (move_sma_page env ob page mode reason s)) = gets page s + 1
   \<and> releases page (snd (move_sma_page env ob page mode reason s))
       = releases page s
         + (if fst (move_sma_page env ob page mode reason s) = Inr (- EAGAIN) then 1 else 0)
   \<and> (\<forall>lv'. fst (move_entries env mode reason pass (unmapped_head s) lv s) = Inr lv' \<longrightarrow>
         gets p (snd (move_entries env mode reason pass (unmapped_head s) lv s))
           = gets p s + count_list (unmapped_head s) p)
   \<and> (distinct (unmapped_head s) \<and> p \<in> set (unmapped_head s) \<and>
        fst (move_sma_pages env mode reason s) = Inr rc \<longrightarrow>
        gets p s + 1 \<le> gets p (snd (move_sma_pages env mode reason s)) \<and>
        gets p (snd (move_sma_pages env mode reason s)) \<le> gets p s + 10)"
  using move_sma_page_counts [of page env ob page mode reason s]
    move_entries_gets [of p s env mode reason pass "unmapped_head s" lv]
    move_sma_pages_gets [of s p env mode reason rc]
  by simp

theorem supply_once_per_attempt_witness:
  "distinct (unmapped_head ((batch [])\<lparr>unmapped_head := [1]\<rparr>))
   \<and> 1 \<in> set (unmapped_head ((batch [])\<lparr>unmapped_head := [1]\<rparr>))
   \<and> fst (move_sma_pages env_contended_once MIGRATE_SYNC_NO_COPY 0
            ((batch [])\<lparr>unmapped_head := [1]\<rparr>)) = Inr 0
   \<and> gets 1 ((batch [])\<lparr>unmapped_head := [1]\<rparr>) + 1
        \<le> gets 1 (snd (move_sma_pages env_contended_once MIGRATE_SYNC_NO_COPY 0
                          ((batch [])\<lparr>unmapped_head := [1]\<rparr>)))
   \<and> gets 1 (snd (move_sma_pages env_contended_once MIGRATE_SYNC_NO_COPY 0
                     ((batch [])\<lparr>unmapped_head := [1]\<rparr>)))
        \<le> gets 1 ((batch [])\<lparr>unmapped_head := [1]\<rparr>) + 10"
proof -
  have a: "fst (move_sma_pages env_contended_once MIGRATE_SYNC_NO_COPY 0
            ((batch [])\<lparr>unmapped_head := [1]\<rparr>)) = Inr 0"
    by (simp add: env_contended_once_def batch_defs run_defs prim_defs rc_defs)
  have b: "distinct (unmapped_head ((batch [])\<lparr>unmapped_head := [1]\<rparr>))"
    "1 \<in> set (unmapped_head ((batch [])\<lparr>unmapped_head := [1]\<rparr>))"
    by simp_all
  from supply_once_per_attempt
         [of 1 env_contended_once "ok_move 1" MIGRATE_SYNC_NO_COPY 0
             "(batch [])\<lparr>unmapped_head := [1]\<rparr>" 0 _ 1 0] a b
  show ?thesis by blast
qed

text \<open>Claim C7 as stated (\<^verbatim>\<open>get_new_page\<close> is called exactly once for a page over
  the whole move phase, retries included) fails: when the destination is locked
  in the first pass, the page is given a destination twice, the first one is
  released, and the batch succeeds.\<close>

theorem supplied_twice_counterexample:
  "fst (migrate_sma_pages env_contended_once MIGRATE_SYNC 0 (batch [1])) = Inr 0
   \<and> gets 1 (snd (migrate_sma_pages env_contended_once MIGRATE_SYNC 0 (batch [1]))) = 2
   \<and> releases 1 (snd (migrate_sma_pages env_contended_once MIGRATE_SYNC 0 (batch [1]))) = 1"
  by (simp add: env_contended_once_def gets_def releases_def batch_defs run_defs prim_defs
        rc_defs)

end
